theory Spec2Isabelle
  imports Complex_Main "HOL-Library.Word" "HOL-Library.Log_Nat"
begin

unbundle bit_operations_syntax

section \<open>Buffers and platform primitives\<close>

text \<open>
  A Node \<open>Buffer\<close> is a list of bytes. JavaScript strings are lists of 8-bit characters
  (code points below 256). JavaScript numbers that the code uses as sizes and offsets are
  natural numbers; they do not wrap around. The results of \<open>Math.round\<close> are integers.
  The one computation of the code that leaves the integers, the duration
  \<open>(dataSize / byteRate) * 1000\<close>, is done in doubles.
\<close>

type_synonym byte = "8 word"
type_synonym buffer = "byte list"

datatype js_error = RangeError | Error string

text \<open>\<open>buffer.slice(start, end)\<close>: both ends are clamped to the buffer.\<close>

definition slice :: "buffer \<Rightarrow> nat \<Rightarrow> nat \<Rightarrow> buffer" where
  "slice buf start end = take (end - start) (drop start buf)"

text \<open>
  \<open>buf.toString('ascii')\<close>: every byte has its highest bit cleared and is then read as
  one character.
\<close>

definition toStringAscii :: "buffer \<Rightarrow> string" where
  "toStringAscii buf = map (\<lambda>b. char_of (unat (b AND 0x7F))) buf"

text \<open>The bytes that \<open>buf.write(str, offset, 'ascii')\<close> stores for a string.\<close>

definition asciiBytes :: "string \<Rightarrow> buffer" where
  "asciiBytes str = map (\<lambda>c. word_of_nat (of_char c)) str"

text \<open>
  \<open>buf.readUInt32LE(offset)\<close> raises a range error unless the four bytes lie inside the
  buffer.
\<close>

definition readUInt32LE :: "buffer \<Rightarrow> nat \<Rightarrow> js_error + nat" where
  "readUInt32LE buf offset =
     (if offset + 4 \<le> length buf
      then Inr (unat (buf ! offset) + unat (buf ! (offset + 1)) * 2 ^ 8
                + unat (buf ! (offset + 2)) * 2 ^ 16 + unat (buf ! (offset + 3)) * 2 ^ 24)
      else Inl RangeError)"

text \<open>\<open>Buffer.alloc(n)\<close>: \<open>n\<close> zero bytes.\<close>

definition alloc :: "nat \<Rightarrow> buffer" where
  "alloc n = replicate n 0"

text \<open>Overwriting the bytes of a buffer from an offset on (the region lies inside it).\<close>

definition writeBytes :: "buffer \<Rightarrow> nat \<Rightarrow> buffer \<Rightarrow> buffer" where
  "writeBytes bs offset buf = take offset buf @ bs @ drop (offset + length bs) buf"

definition u32le :: "nat \<Rightarrow> buffer" where
  "u32le v = [word_of_nat v, word_of_nat (v div 2 ^ 8),
              word_of_nat (v div 2 ^ 16), word_of_nat (v div 2 ^ 24)]"

definition u16le :: "nat \<Rightarrow> buffer" where
  "u16le v = [word_of_nat v, word_of_nat (v div 2 ^ 8)]"

text \<open>
  \<open>buf.write(str, offset, 'ascii')\<close>, \<open>buf.writeUInt32LE(value, offset)\<close> and
  \<open>buf.writeUInt16LE(value, offset)\<close>. The integer writers raise a range error when the
  value does not fit the field, or when the field does not lie inside the buffer.
\<close>

definition writeAscii :: "string \<Rightarrow> nat \<Rightarrow> buffer \<Rightarrow> js_error + buffer" where
  "writeAscii str offset buf = Inr (writeBytes (take (length buf - offset) (asciiBytes str)) offset buf)"

definition writeUInt32LE :: "nat \<Rightarrow> nat \<Rightarrow> buffer \<Rightarrow> js_error + buffer" where
  "writeUInt32LE v offset buf =
     (if v > 0xFFFFFFFF \<or> offset + 4 > length buf then Inl RangeError
      else Inr (writeBytes (u32le v) offset buf))"

definition writeUInt16LE :: "nat \<Rightarrow> nat \<Rightarrow> buffer \<Rightarrow> js_error + buffer" where
  "writeUInt16LE v offset buf =
     (if v > 0xFFFF \<or> offset + 2 > length buf then Inl RangeError
      else Inr (writeBytes (u16le v) offset buf))"

text \<open>Sequencing of calls that may raise.\<close>

definition andThen :: "js_error + 'a \<Rightarrow> ('a \<Rightarrow> js_error + 'b) \<Rightarrow> js_error + 'b" where
  "andThen r f = (case r of Inl e \<Rightarrow> Inl e | Inr x \<Rightarrow> f x)"

text \<open>
  \<open>Math.round\<close> rounds to the nearest integer, halves upwards; it is exact on the number
  it is given.
\<close>

definition Math_round :: "real \<Rightarrow> int" where
  "Math_round x = \<lfloor>x + 1 / 2\<rfloor>"

text \<open>
  JavaScript numbers are IEEE 754 doubles. A positive double is \<open>(m, e)\<close>, the mantissa
  and the exponent of the number \<open>m * 2 ^ e\<close>. \<open>nearestDouble p q\<close> is the double nearest
  to the quotient \<open>p / q\<close> of two positive integers: the quotient is scaled into the binade
  of 53-bit mantissas and rounded to the nearest integer, ties to the even one (the
  rounding of every arithmetic operation; the quotients and products of the code lie far
  inside the exponent range). \<open>divide_double\<close> is \<open>a / b\<close> on two integers, and
  \<open>times_double\<close> is the product of a double and an integer.
\<close>

type_synonym double = "nat \<times> int"

definition doubleValue :: "double \<Rightarrow> real" where
  "doubleValue d =
     (case d of (m, e) \<Rightarrow> if 0 \<le> e then real (m * 2 ^ nat e) else real m / 2 ^ nat (- e))"

definition roundHalfEven :: "nat \<Rightarrow> nat \<Rightarrow> nat" where
  "roundHalfEven n d =
     (let q = n div d; r = n mod d in
      if 2 * r < d then q
      else if d < 2 * r then q + 1
      else if even q then q else q + 1)"

text \<open>The exponent \<open>e\<close> with \<open>2 ^ e \<le> p / q < 2 ^ (e + 1)\<close>.\<close>

definition binade :: "nat \<Rightarrow> nat \<Rightarrow> int" where
  "binade p q =
     (let d = int (floorlog 2 p) - int (floorlog 2 q) in
      if (if 0 \<le> d then q * 2 ^ nat d \<le> p else q \<le> p * 2 ^ nat (- d)) then d else d - 1)"

definition nearestDouble :: "nat \<Rightarrow> nat \<Rightarrow> double" where
  "nearestDouble p q =
     (let s = 52 - binade p q in
      (if 0 \<le> s then roundHalfEven (p * 2 ^ nat s) q else roundHalfEven p (q * 2 ^ nat (- s)),
       - s))"

definition divide_double :: "nat \<Rightarrow> nat \<Rightarrow> double" where
  "divide_double a b = nearestDouble a b"

definition times_double :: "double \<Rightarrow> nat \<Rightarrow> double" where
  "times_double d k =
     (case d of (m, e) \<Rightarrow>
        if 0 \<le> e then nearestDouble (m * k * 2 ^ nat e) 1
        else nearestDouble (m * k) (2 ^ nat (- e)))"

section \<open>Audio container: src/lib/voice/generate-voice-line.ts\<close>

text \<open>
  The fallback of \<open>getWavDurationFromBuffer\<close>: \<open>Math.round((buffer.length * 8) / 128)\<close>.
  The division by 128 is exact in doubles.
\<close>

definition fallbackDuration :: "buffer \<Rightarrow> int" where
  "fallbackDuration buf = Math_round (real (length buf * 8) / 128)"

text \<open>
  The chunk walk of \<open>getWavDurationFromBuffer\<close>: the \<open>while\<close> loop from \<open>offset\<close> on,
  returning the value of \<open>dataSize\<close> when the loop is left.
\<close>

function findDataSize :: "buffer \<Rightarrow> nat \<Rightarrow> js_error + nat" where
  "findDataSize buf offset =
     (if offset + 8 < length buf then
        (let chunkId = toStringAscii (slice buf offset (offset + 4)) in
         case readUInt32LE buf (offset + 4) of
           Inl e \<Rightarrow> Inl e
         | Inr chunkSize \<Rightarrow>
             if chunkId = ''data'' then Inr chunkSize
             else findDataSize buf (offset + 8 + chunkSize))
      else Inr 0)"
  by pat_completeness auto
termination
  by (relation "measure (\<lambda>(buf, offset). length buf - offset)") auto

declare findDataSize.simps [simp del]

text \<open>The body of the \<open>try\<close> block of \<open>getWavDurationFromBuffer\<close>.\<close>

definition wavDurationTry :: "buffer \<Rightarrow> js_error + int" where
  "wavDurationTry buf =
     (let riff = toStringAscii (slice buf 0 4) in
      if riff \<noteq> ''RIFF'' then Inr (fallbackDuration buf)
      else
        andThen (readUInt32LE buf 28) (\<lambda>byteRate.
        andThen (findDataSize buf 12) (\<lambda>dataSize.
          if dataSize > 0 \<and> byteRate > 0
          then Inr (Math_round (doubleValue (times_double (divide_double dataSize byteRate) 1000)))
          else Inr (fallbackDuration buf))))"

text \<open>\<open>getWavDurationFromBuffer\<close>: the \<open>catch\<close> clause turns every error into the fallback.\<close>

definition getWavDurationFromBuffer :: "buffer \<Rightarrow> js_error + int" where
  "getWavDurationFromBuffer buf =
     (case wavDurationTry buf of
        Inl e \<Rightarrow> Inr (fallbackDuration buf)
      | Inr d \<Rightarrow> Inr d)"

definition isWavBuffer :: "buffer \<Rightarrow> bool" where
  "isWavBuffer buf =
     (if length buf < 12 then False
      else toStringAscii (slice buf 0 4) = ''RIFF'' \<and> toStringAscii (slice buf 8 12) = ''WAVE'')"

definition wrapPcm16MonoToWav :: "buffer \<Rightarrow> nat \<Rightarrow> js_error + buffer" where
  "wrapPcm16MonoToWav pcm sampleRate =
     (let channels = 1;
          bitsPerSample = 16;
          blockAlign = (channels * bitsPerSample) div 8;
          byteRate = sampleRate * blockAlign;
          header = alloc 44
      in
        andThen (writeAscii ''RIFF'' 0 header) (\<lambda>header.
        andThen (writeUInt32LE (36 + length pcm) 4 header) (\<lambda>header.
        andThen (writeAscii ''WAVE'' 8 header) (\<lambda>header.
        andThen (writeAscii ''fmt '' 12 header) (\<lambda>header.
        andThen (writeUInt32LE 16 16 header) (\<lambda>header.
        andThen (writeUInt16LE 1 20 header) (\<lambda>header.
        andThen (writeUInt16LE channels 22 header) (\<lambda>header.
        andThen (writeUInt32LE sampleRate 24 header) (\<lambda>header.
        andThen (writeUInt32LE byteRate 28 header) (\<lambda>header.
        andThen (writeUInt16LE blockAlign 32 header) (\<lambda>header.
        andThen (writeUInt16LE bitsPerSample 34 header) (\<lambda>header.
        andThen (writeAscii ''data'' 36 header) (\<lambda>header.
        andThen (writeUInt32LE (length pcm) 40 header) (\<lambda>header.
          Inr (header @ pcm)))))))))))))))"

definition normalizeQwenAudioToWav :: "buffer \<Rightarrow> nat \<Rightarrow> js_error + buffer" where
  "normalizeQwenAudioToWav rawAudio sampleRate =
     (if isWavBuffer rawAudio then Inr rawAudio
      else wrapPcm16MonoToWav rawAudio sampleRate)"

text \<open>The 44 bytes that \<open>wrapPcm16MonoToWav\<close> puts before \<open>n\<close> bytes of samples.\<close>

definition wavHeader :: "nat \<Rightarrow> nat \<Rightarrow> buffer" where
  "wavHeader n sampleRate =
     asciiBytes ''RIFF'' @ u32le (36 + n) @ asciiBytes ''WAVE'' @ asciiBytes ''fmt '' @ u32le 16
       @ u16le 1 @ u16le 1 @ u32le sampleRate @ u32le (sampleRate * 2) @ u16le 2 @ u16le 16
       @ asciiBytes ''data'' @ u32le n"

section \<open>JSON values and string helpers\<close>

text \<open>
  A value produced by \<open>JSON.parse\<close>. An object is the list of its properties (every key
  once). A value of type \<open>unknown\<close> read from a property is a \<open>json option\<close>, where
  \<open>None\<close> is \<open>undefined\<close>.
\<close>

datatype json =
    JNull
  | JBool bool
  | JNumber int
  | JString string
  | JArray "json list"
  | JObject "(string \<times> json) list"

definition isRecord :: "json option \<Rightarrow> bool" where
  "isRecord value = (case value of Some (JObject fields) \<Rightarrow> True | _ \<Rightarrow> False)"

text \<open>Property access \<open>value.key\<close> on a value that has passed \<open>isRecord\<close>.\<close>

definition getProp :: "json option \<Rightarrow> string \<Rightarrow> json option" where
  "getProp value key = (case value of Some (JObject fields) \<Rightarrow> map_of fields key | _ \<Rightarrow> None)"

text \<open>
  \<open>String.prototype.trim\<close> on 8-bit characters: TAB, LF, VT, FF, CR, SPACE and NBSP are
  the white space and line terminators below code point 256.
\<close>

definition isWhiteSpace :: "char \<Rightarrow> bool" where
  "isWhiteSpace c = (c \<in> set [CHR 0x09, CHR 0x0A, CHR 0x0B, CHR 0x0C, CHR 0x0D, CHR 0x20, CHR 0xA0])"

definition trim :: "string \<Rightarrow> string" where
  "trim str = rev (dropWhile isWhiteSpace (rev (dropWhile isWhiteSpace str)))"

definition readOptionalString :: "json option \<Rightarrow> string option" where
  "readOptionalString value =
     (case value of
        Some (JString str) \<Rightarrow> (let trimmed = trim str in if trimmed = [] then None else Some trimmed)
      | _ \<Rightarrow> None)"

text \<open>\<open>a || b\<close> on values that are a non-empty string or \<open>null\<close>.\<close>

definition orElse :: "string option \<Rightarrow> string option \<Rightarrow> string option" where
  "orElse a b = (case a of Some x \<Rightarrow> Some x | None \<Rightarrow> b)"

text \<open>
  The functions of the platform that the code calls on message contents: \<open>JSON.parse\<close>
  (\<open>None\<close> when it raises a syntax error) and \<open>Buffer.from(str, 'base64')\<close>. They are
  parameters of the model.
\<close>

record platform =
  JSON_parse :: "string \<Rightarrow> json option"
  fromBase64 :: "string \<Rightarrow> js_error + buffer"

section \<open>Realtime session: generateVoiceWithQwenRealtimeTTS\<close>

text \<open>
  What a WebSocket \<open>message\<close> listener receives. Binary payloads are given by the text
  they hold (\<open>toString('utf8')\<close>).
\<close>

datatype ws_item = ItemBuffer string | ItemArrayBuffer string | ItemView string | ItemOther

datatype ws_data =
    DataString string
  | DataBuffer string
  | DataArrayBuffer string
  | DataView string
  | DataArray "ws_item list"
  | DataOther

text \<open>The loop of \<open>decodeWsMessageToText\<close> over an array: \<open>None\<close> is the early \<open>return ''\<close>.\<close>

fun collectChunks :: "ws_item list \<Rightarrow> string list option" where
  "collectChunks [] = Some []"
| "collectChunks (ItemBuffer b # items) = map_option ((#) b) (collectChunks items)"
| "collectChunks (ItemArrayBuffer b # items) = map_option ((#) b) (collectChunks items)"
| "collectChunks (ItemView b # items) = map_option ((#) b) (collectChunks items)"
| "collectChunks (ItemOther # items) = None"

fun decodeWsMessageToText :: "ws_data \<Rightarrow> string" where
  "decodeWsMessageToText (DataString str) = str"
| "decodeWsMessageToText (DataBuffer b) = b"
| "decodeWsMessageToText (DataArrayBuffer b) = b"
| "decodeWsMessageToText (DataView b) = b"
| "decodeWsMessageToText (DataArray items) =
     (case collectChunks items of None \<Rightarrow> [] | Some chunks \<Rightarrow> concat chunks)"
| "decodeWsMessageToText DataOther = []"

record voice_params =
  modelId :: string
  voiceId :: string
  text_param :: string
  qwenApiKey :: string

record audio_result =
  audioData :: buffer
  audioDuration :: int

text \<open>The errors the voice code raises, by the prefix of their message.\<close>

datatype tts_error =
    QWEN_TTS_TIMEOUT nat
  | QWEN_TTS_WS_SEND_FAILED string
  | QWEN_TTS_INVALID_EVENT string
  | QWEN_TTS_FAILED_WS string
  | QWEN_TTS_FAILED string
  | QWEN_TTS_WS_ERROR string
  | QWEN_TTS_WS_CLOSED nat string
  | QWEN_TTS_INVALID_RESPONSE string
  | QWEN_TTS_FAILED_HTTP nat string
  | QWEN_TTS_AUDIO_DOWNLOAD_FAILED nat
  | Uncaught js_error

text \<open>The realtime events the client sends (\<open>buildRealtimeEvent\<close>, without the event id).\<close>

datatype outbound =
    SessionUpdate string string string nat
  | InputTextBufferAppend string
  | InputTextBufferCommit
  | SessionFinish

text \<open>
  The calls a session makes on its socket, its timer and its promise, in the order they
  are made. \<open>Escapes e\<close> is an exception that leaves an event listener uncaught.
\<close>

datatype effect =
    WsSend outbound
  | WsClose nat
  | ClearTimeout
  | Resolve audio_result
  | Reject tts_error
  | Escapes js_error

record session =
  audioChunks :: "buffer list"
  hasResponseDone :: bool
  hasSessionFinished :: bool
  settled :: bool
  effects :: "effect list"

definition newSession :: session where
  "newSession = \<lparr>audioChunks = [], hasResponseDone = False, hasSessionFinished = False,
                  settled = False, effects = []\<rparr>"

definition timeoutMs :: nat where
  "timeoutMs = 45000"

definition emit :: "effect list \<Rightarrow> session \<Rightarrow> session" where
  "emit es s = s\<lparr>effects := effects s @ es\<rparr>"

definition fail :: "session \<Rightarrow> tts_error \<Rightarrow> session" where
  "fail s error =
     (if settled s then s
      else emit [ClearTimeout, WsClose 1011, Reject error] (s\<lparr>settled := True\<rparr>))"

definition finish :: "session \<Rightarrow> session" where
  "finish s =
     (if settled s then s
      else
        (let s = emit [ClearTimeout] (s\<lparr>settled := True\<rparr>) in
         if length (audioChunks s) = 0
         then emit [Reject (QWEN_TTS_INVALID_RESPONSE ''missing response.audio.delta'')] s
         else
           (let rawAudio = concat (audioChunks s) in
            case normalizeQwenAudioToWav rawAudio 24000 of
              Inl e \<Rightarrow> emit [Escapes e] s
            | Inr wavAudio \<Rightarrow>
                (case getWavDurationFromBuffer wavAudio of
                   Inl e \<Rightarrow> emit [Escapes e] s
                 | Inr duration \<Rightarrow>
                     emit [Resolve \<lparr>audioData = wavAudio, audioDuration = duration\<rparr>, WsClose 1000] s))))"

text \<open>
  The \<open>open\<close> listener sends four events. \<open>SendThrows k err\<close>: the call of \<open>ws.send\<close>
  number \<open>k\<close> (from 0) raises, with the message \<open>err\<close> when what it raises is an
  \<open>Error\<close>.
\<close>

datatype send_outcome = SendsSucceed | SendThrows nat "string option"

definition openEvents :: "voice_params \<Rightarrow> outbound list" where
  "openEvents params =
     [SessionUpdate (voiceId params) ''server_commit'' ''pcm'' 24000,
      InputTextBufferAppend (text_param params),
      InputTextBufferCommit,
      SessionFinish]"

definition onOpen :: "voice_params \<Rightarrow> session \<Rightarrow> send_outcome \<Rightarrow> session" where
  "onOpen params s sends =
     (case sends of
        SendsSucceed \<Rightarrow> emit (map WsSend (openEvents params)) s
      | SendThrows k err \<Rightarrow>
          if k < length (openEvents params)
          then
            (let message = (case err of Some m \<Rightarrow> m | None \<Rightarrow> ''unknown error'') in
             fail (emit (map WsSend (take k (openEvents params))) s) (QWEN_TTS_WS_SEND_FAILED message))
          else emit (map WsSend (openEvents params)) s)"

text \<open>
  The \<open>message\<close> listener, block by block: the four branches on \<open>eventType\<close>, the
  dispatch between them, and the listener itself, which decodes and checks the message
  before the dispatch.
\<close>

definition onErrorEvent :: "session \<Rightarrow> string \<Rightarrow> json option \<Rightarrow> session" where
  "onErrorEvent s messageText messageData =
     (let errorPayload = (if isRecord (getProp messageData ''error'')
                          then getProp messageData ''error'' else None);
          code = (if errorPayload \<noteq> None
                  then readOptionalString (getProp errorPayload ''code'') else None);
          message = (if errorPayload \<noteq> None
                     then readOptionalString (getProp errorPayload ''message'') else None)
      in fail s (QWEN_TTS_FAILED_WS
                   (case orElse message code of Some m \<Rightarrow> m | None \<Rightarrow> messageText)))"

definition onAudioDelta :: "platform \<Rightarrow> session \<Rightarrow> json option \<Rightarrow> session" where
  "onAudioDelta pf s messageData =
     (case readOptionalString (getProp messageData ''delta'') of
        None \<Rightarrow> fail s (QWEN_TTS_INVALID_EVENT ''response.audio.delta missing delta'')
      | Some delta \<Rightarrow>
          (case fromBase64 pf delta of
             Inl e \<Rightarrow> fail s (QWEN_TTS_INVALID_EVENT ''response.audio.delta is not valid base64'')
           | Inr chunk \<Rightarrow> s\<lparr>audioChunks := audioChunks s @ [chunk]\<rparr>))"

definition onResponseDone :: "session \<Rightarrow> json option \<Rightarrow> session" where
  "onResponseDone s0 messageData =
     (let s = s0\<lparr>hasResponseDone := True\<rparr>;
          responseData = (if isRecord (getProp messageData ''response'')
                          then getProp messageData ''response'' else None);
          responseStatus = (if responseData \<noteq> None
                            then readOptionalString (getProp responseData ''status'')
                            else None)
      in case responseStatus of
           Some status \<Rightarrow>
             if status \<noteq> ''completed'' then fail s (QWEN_TTS_FAILED status)
             else if hasSessionFinished s then finish s else s
         | None \<Rightarrow> if hasSessionFinished s then finish s else s)"

definition onSessionFinished :: "session \<Rightarrow> session" where
  "onSessionFinished s0 =
     (let s = s0\<lparr>hasSessionFinished := True\<rparr> in
      if hasResponseDone s \<or> length (audioChunks s) > 0 then finish s else s)"

definition dispatchEvent ::
    "platform \<Rightarrow> session \<Rightarrow> string \<Rightarrow> json option \<Rightarrow> string \<Rightarrow> session" where
  "dispatchEvent pf s messageText messageData eventType =
     (if eventType = ''error'' then onErrorEvent s messageText messageData
      else if eventType = ''response.audio.delta'' then onAudioDelta pf s messageData
      else if eventType = ''response.done'' then onResponseDone s messageData
      else if eventType = ''session.finished'' then onSessionFinished s
      else s)"

definition onMessage :: "platform \<Rightarrow> session \<Rightarrow> ws_data \<Rightarrow> session" where
  "onMessage pf s data =
     (let messageText = trim (decodeWsMessageToText data) in
      if messageText = [] then s
      else
        case JSON_parse pf messageText of
          None \<Rightarrow> fail s (QWEN_TTS_INVALID_EVENT messageText)
        | Some parsed \<Rightarrow>
            (let messageData = Some parsed in
             if \<not> isRecord messageData
             then fail s (QWEN_TTS_INVALID_EVENT ''event payload is not object'')
             else
               case readOptionalString (getProp messageData ''type'') of
                 None \<Rightarrow> fail s (QWEN_TTS_INVALID_EVENT ''missing type'')
               | Some eventType \<Rightarrow> dispatchEvent pf s messageText messageData eventType))"

definition onError :: "session \<Rightarrow> string \<Rightarrow> session" where
  "onError s message = fail s (QWEN_TTS_WS_ERROR message)"

definition onClose :: "session \<Rightarrow> nat \<Rightarrow> string \<Rightarrow> session" where
  "onClose s code reason =
     (if settled s then s
      else
        (let reasonText = trim reason in
         if length (audioChunks s) > 0 \<and> (hasResponseDone s \<or> hasSessionFinished s)
         then finish s
         else fail s (QWEN_TTS_WS_CLOSED code reasonText)))"

text \<open>The callback of the timer set when the session is created.\<close>

definition onTimeout :: "session \<Rightarrow> session" where
  "onTimeout s = fail s (QWEN_TTS_TIMEOUT timeoutMs)"

text \<open>
  What can happen to a session after its creation: the socket's four events and the
  timer. A session runs its listeners on the events in the order they arrive.
\<close>

datatype ws_event =
    Open send_outcome
  | Message ws_data
  | SocketError string
  | Close nat string
  | Timeout

fun step :: "platform \<Rightarrow> voice_params \<Rightarrow> session \<Rightarrow> ws_event \<Rightarrow> session" where
  "step pf params s (Open sends) = onOpen params s sends"
| "step pf params s (Message data) = onMessage pf s data"
| "step pf params s (SocketError message) = onError s message"
| "step pf params s (Close code reason) = onClose s code reason"
| "step pf params s Timeout = onTimeout s"

definition run :: "platform \<Rightarrow> voice_params \<Rightarrow> session \<Rightarrow> ws_event list \<Rightarrow> session" where
  "run pf params s events = foldl (step pf params) s events"

text \<open>
  The promise: the calls of \<open>resolve\<close> and \<open>reject\<close> a session has made; the first one
  settles it.
\<close>

fun isSettlement :: "effect \<Rightarrow> bool" where
  "isSettlement (Resolve r) = True"
| "isSettlement (Reject e) = True"
| "isSettlement _ = False"

definition settlements :: "session \<Rightarrow> effect list" where
  "settlements s = filter isSettlement (effects s)"

fun isWsClose :: "effect \<Rightarrow> bool" where
  "isWsClose (WsClose code) = True"
| "isWsClose _ = False"

definition closes :: "session \<Rightarrow> effect list" where
  "closes s = filter isWsClose (effects s)"

text \<open>
  \<open>generateVoiceWithQwenRealtimeTTS\<close>: the state of the promise after the events;
  \<open>None\<close> while it is pending.
\<close>

definition generateVoiceWithQwenRealtimeTTS ::
    "platform \<Rightarrow> voice_params \<Rightarrow> ws_event list \<Rightarrow> (tts_error + audio_result) option" where
  "generateVoiceWithQwenRealtimeTTS pf params events =
     (case settlements (run pf params newSession events) of
        Resolve r # rest \<Rightarrow> Some (Inr r)
      | Reject e # rest \<Rightarrow> Some (Inl e)
      | _ \<Rightarrow> None)"

section \<open>Notions for the properties of a session\<close>

text \<open>
  \<open>inbound pf data obj eventType\<close>: the message \<open>data\<close> has a text that is not empty
  after trimming, which \<open>JSON.parse\<close> reads as the object \<open>obj\<close>, whose \<open>type\<close> reads as
  \<open>eventType\<close>.
\<close>

definition inbound :: "platform \<Rightarrow> ws_data \<Rightarrow> (string \<times> json) list \<Rightarrow> string \<Rightarrow> bool" where
  "inbound pf data obj eventType =
     (let messageText = trim (decodeWsMessageToText data) in
      messageText \<noteq> [] \<and> JSON_parse pf messageText = Some (JObject obj)
      \<and> readOptionalString (map_of obj ''type'') = Some eventType)"

text \<open>The status that the listener reads from a \<open>response.done\<close> event.\<close>

definition responseStatus :: "(string \<times> json) list \<Rightarrow> string option" where
  "responseStatus obj =
     (if isRecord (map_of obj ''response'')
      then readOptionalString (getProp (map_of obj ''response'') ''status'')
      else None)"

text \<open>
  \<open>quiet s s'\<close>: from \<open>s\<close> to \<open>s'\<close> the session has not settled and has made no call on
  its promise or to close its socket. \<open>handled s s'\<close>: a listener started in \<open>s\<close> ends in
  \<open>s'\<close>, having called \<open>fail\<close> or \<open>finish\<close> at most once, as its last action.
\<close>

definition quiet :: "session \<Rightarrow> session \<Rightarrow> bool" where
  "quiet s s' = (settled s' = settled s \<and> settlements s' = settlements s \<and> closes s' = closes s)"

inductive handled :: "session \<Rightarrow> session \<Rightarrow> bool" where
  keeps: "quiet s s' \<Longrightarrow> handled s s'"
| fails: "quiet s s' \<Longrightarrow> handled s (fail s' e)"
| finishes: "quiet s s' \<Longrightarrow> handled s (finish s')"

text \<open>
  \<open>paired s\<close>: the calls on the promise and the calls of \<open>ws.close\<close> that a session has
  made are none; or one \<open>resolve\<close> with a close of code 1000; or one \<open>reject\<close> with a
  close of code 1011; or the \<open>reject\<close> of \<open>finish\<close> without audio, with no close.
\<close>

definition paired :: "session \<Rightarrow> bool" where
  "paired s =
     ((settlements s = [] \<and> closes s = [])
      \<or> (\<exists>r. settlements s = [Resolve r] \<and> closes s = [WsClose 1000])
      \<or> (\<exists>e. settlements s = [Reject e] \<and> closes s = [WsClose 1011])
      \<or> (settlements s = [Reject (QWEN_TTS_INVALID_RESPONSE ''missing response.audio.delta'')]
          \<and> closes s = []))"

section \<open>Request/response transport: generateVoiceWithQwenTTSHttp\<close>

definition readQwenAudioUrl :: "json option \<Rightarrow> string option" where
  "readQwenAudioUrl data =
     (if \<not> isRecord data then None
      else
        (let output = getProp data ''output'' in
         if \<not> isRecord output then None
         else
           (let audio = getProp output ''audio'';
                url = (if isRecord audio then readOptionalString (getProp audio ''url'') else None)
            in if url \<noteq> None then url
               else readOptionalString (getProp output ''audio_url''))))"

definition readQwenAudioBase64 :: "json option \<Rightarrow> string option" where
  "readQwenAudioBase64 data =
     (if \<not> isRecord data then None
      else
        (let output = getProp data ''output'' in
         if \<not> isRecord output then None
         else
           (let audio = getProp output ''audio'' in
            if \<not> isRecord audio then None
            else readOptionalString (getProp audio ''data''))))"

text \<open>
  The response of the synthesis endpoint (\<open>response.ok\<close>, \<open>response.status\<close>,
  \<open>await response.text()\<close>) and the response of the download of an audio URL.
\<close>

record http_response =
  ok :: bool
  status :: nat
  responseText :: string

record audio_response =
  audio_ok :: bool
  audio_status :: nat
  arrayBuffer :: buffer

text \<open>\<open>{ audioData, audioDuration: getWavDurationFromBuffer(audioData) }\<close>\<close>

definition withDuration :: "buffer \<Rightarrow> tts_error + audio_result" where
  "withDuration audio =
     (case getWavDurationFromBuffer audio of
        Inl e \<Rightarrow> Inl (Uncaught e)
      | Inr duration \<Rightarrow> Inr \<lparr>audioData = audio, audioDuration = duration\<rparr>)"

text \<open>
  \<open>generateVoiceWithQwenTTSHttp\<close>, from the response of its request on. \<open>download url\<close>
  is the response of \<open>fetch(toFetchableUrl(url))\<close>.
\<close>

definition generateVoiceWithQwenTTSHttp ::
    "platform \<Rightarrow> http_response \<Rightarrow> (string \<Rightarrow> audio_response) \<Rightarrow> tts_error + audio_result" where
  "generateVoiceWithQwenTTSHttp pf response download =
     (let rawResponse = responseText response;
          responseData = (if rawResponse \<noteq> [] then JSON_parse pf rawResponse else None)
      in
        if \<not> ok response then
          (let detail = (if isRecord responseData
                         then orElse (readOptionalString (getProp responseData ''message''))
                                     (readOptionalString (getProp responseData ''code''))
                         else None)
           in Inl (QWEN_TTS_FAILED_HTTP (status response)
                     (case detail of
                        Some d \<Rightarrow> d
                      | None \<Rightarrow> if rawResponse \<noteq> [] then rawResponse else ''unknown error'')))
        else
          case readQwenAudioBase64 responseData of
            Some audioBase64 \<Rightarrow>
              (case fromBase64 pf audioBase64 of
                 Inl e \<Rightarrow> Inl (Uncaught e)
               | Inr audio \<Rightarrow> withDuration audio)
          | None \<Rightarrow>
              (case readQwenAudioUrl responseData of
                 None \<Rightarrow> Inl (QWEN_TTS_INVALID_RESPONSE ''missing output audio'')
               | Some audioUrl \<Rightarrow>
                   (let audioResponse = download audioUrl in
                    if \<not> audio_ok audioResponse
                    then Inl (QWEN_TTS_AUDIO_DOWNLOAD_FAILED (audio_status audioResponse))
                    else withDuration (arrayBuffer audioResponse))))"

text \<open>\<open>String.prototype.toLowerCase\<close> and \<open>String.prototype.includes\<close> on 8-bit characters.\<close>

definition toLowerChar :: "char \<Rightarrow> char" where
  "toLowerChar c =
     (let n = (of_char c :: nat) in
      if (65 \<le> n \<and> n \<le> 90) \<or> (192 \<le> n \<and> n \<le> 222 \<and> n \<noteq> 215) then char_of (n + 32) else c)"

definition toLowerCase :: "string \<Rightarrow> string" where
  "toLowerCase str = map toLowerChar str"

fun includes_str :: "string \<Rightarrow> string \<Rightarrow> bool" where
  "includes_str [] needle = (needle = [])"
| "includes_str (c # cs) needle = (take (length needle) (c # cs) = needle \<or> includes_str cs needle)"

definition isQwenRealtimeModel :: "string \<Rightarrow> bool" where
  "isQwenRealtimeModel model = includes_str (toLowerCase model) ''realtime''"

text \<open>
  \<open>generateVoiceWithQwenTTS\<close>: the realtime session on the events of its socket, or the
  request on its response; \<open>None\<close> while the promise is pending.
\<close>

definition generateVoiceWithQwenTTS ::
    "platform \<Rightarrow> voice_params \<Rightarrow> ws_event list \<Rightarrow> http_response \<Rightarrow> (string \<Rightarrow> audio_response)
      \<Rightarrow> (tts_error + audio_result) option" where
  "generateVoiceWithQwenTTS pf params events response download =
     (if isQwenRealtimeModel (modelId params)
      then generateVoiceWithQwenRealtimeTTS pf params events
      else Some (generateVoiceWithQwenTTSHttp pf response download))"

section \<open>Task queues\<close>

text \<open>
  Modelled from the spec: the declarations of \<open>TaskType\<close>, \<open>TASK_TYPE\<close> and
  \<open>QueueType\<close> (module \<open>./types\<close>) are not among the sources. The task kinds are a closed
  enumeration: the members that the queue module names are constructors, and every other
  kind is \<open>OTHER_TASK\<close> with its name. The queue names are image, video, voice and text.
\<close>

datatype TaskType =
    IMAGE_PANEL
  | IMAGE_CHARACTER
  | IMAGE_LOCATION
  | PANEL_VARIANT
  | MODIFY_ASSET_IMAGE
  | REGENERATE_GROUP
  | ASSET_HUB_IMAGE
  | ASSET_HUB_MODIFY
  | VIDEO_PANEL
  | LIP_SYNC
  | VOICE_LINE
  | VOICE_DESIGN
  | ASSET_HUB_VOICE_DESIGN
  | OTHER_TASK string

datatype QueueType = Image | Video | Voice | Text

definition IMAGE_TYPES :: "TaskType list" where
  "IMAGE_TYPES =
     [IMAGE_PANEL, IMAGE_CHARACTER, IMAGE_LOCATION, PANEL_VARIANT, MODIFY_ASSET_IMAGE,
      REGENERATE_GROUP, ASSET_HUB_IMAGE, ASSET_HUB_MODIFY]"

definition VIDEO_TYPES :: "TaskType list" where
  "VIDEO_TYPES = [VIDEO_PANEL, LIP_SYNC]"

definition VOICE_TYPES :: "TaskType list" where
  "VOICE_TYPES = [VOICE_LINE, VOICE_DESIGN, ASSET_HUB_VOICE_DESIGN]"

text \<open>\<open>Set.prototype.has\<close> on a set built from a list of members.\<close>

definition has :: "'a list \<Rightarrow> 'a \<Rightarrow> bool" where
  "has members x = (x \<in> set members)"

definition getQueueTypeByTaskType :: "TaskType \<Rightarrow> QueueType" where
  "getQueueTypeByTaskType type =
     (if has IMAGE_TYPES type then Image
      else if has VIDEO_TYPES type then Video
      else if has VOICE_TYPES type then Voice
      else Text)"

text \<open>
  A BullMQ queue holds its jobs by job id. \<open>job.remove()\<close> deletes the job from its queue,
  and rejects when the job is locked by a worker that is processing it.
\<close>

record 'd job =
  jobData :: 'd
  locked :: bool

type_synonym 'd queue = "string \<rightharpoonup> 'd job"

type_synonym 'd queues = "QueueType \<Rightarrow> 'd queue"

datatype queue_error = JobLocked

text \<open>The calls made on the queues, in the order they are made.\<close>

datatype queue_call = GetJob QueueType string | JobRemove QueueType string

definition ALL_QUEUES :: "QueueType list" where
  "ALL_QUEUES = [Image, Video, Voice, Text]"

text \<open>The \<open>for\<close> loop of \<open>removeTaskJob\<close> over the queues that remain.\<close>

fun removeLoop ::
    "QueueType list \<Rightarrow> 'd queues \<Rightarrow> string \<Rightarrow> queue_call list
      \<Rightarrow> (queue_error + bool) \<times> 'd queues \<times> queue_call list" where
  "removeLoop [] qs taskId calls = (Inr False, qs, calls)"
| "removeLoop (queue # rest) qs taskId calls =
     (case qs queue taskId of
        None \<Rightarrow> removeLoop rest qs taskId (calls @ [GetJob queue taskId])
      | Some job \<Rightarrow>
          if locked job
          then (Inl JobLocked, qs, calls @ [GetJob queue taskId, JobRemove queue taskId])
          else (Inr True, qs(queue := (qs queue)(taskId := None)),
                calls @ [GetJob queue taskId, JobRemove queue taskId]))"

definition removeTaskJob ::
    "'d queues \<Rightarrow> string \<Rightarrow> (queue_error + bool) \<times> 'd queues \<times> queue_call list" where
  "removeTaskJob qs taskId = removeLoop ALL_QUEUES qs taskId []"

section \<open>A concrete platform and concrete inputs\<close>

text \<open>
  Base64 as \<open>Buffer.from(str, 'base64')\<close> decodes it: the standard and the URL-safe
  alphabet, characters outside the alphabet skipped, the first \<open>=\<close> ends the input, and
  it raises on no string.
\<close>

definition sextet :: "char \<Rightarrow> nat option" where
  "sextet c =
     (let n = (of_char c :: nat) in
      if 65 \<le> n \<and> n \<le> 90 then Some (n - 65)
      else if 97 \<le> n \<and> n \<le> 122 then Some (n - 71)
      else if 48 \<le> n \<and> n \<le> 57 then Some (n + 4)
      else if n = 43 \<or> n = 45 then Some 62
      else if n = 47 \<or> n = 95 then Some 63
      else None)"

fun sextets :: "string \<Rightarrow> nat list" where
  "sextets [] = []"
| "sextets (c # cs) =
     (if c = CHR ''='' then []
      else case sextet c of None \<Rightarrow> sextets cs | Some v \<Rightarrow> v # sextets cs)"

fun octets :: "nat list \<Rightarrow> buffer" where
  "octets (a # b # c # d # rest) =
     word_of_nat (a * 4 + b div 16) # word_of_nat (b * 16 + c div 4) # word_of_nat (c * 64 + d)
       # octets rest"
| "octets [a, b, c] = [word_of_nat (a * 4 + b div 16), word_of_nat (b * 16 + c div 4)]"
| "octets [a, b] = [word_of_nat (a * 4 + b div 16)]"
| "octets rest = []"

definition base64Decode :: "string \<Rightarrow> buffer" where
  "base64Decode str = octets (sextets str)"

text \<open>
  The messages of the examples, as the values \<open>JSON.parse\<close> gives for their texts:
  the events \<open>response.done\<close> (with the status completed, with the status failed, and
  without a \<open>response\<close>), \<open>session.finished\<close>, \<open>response.audio.delta\<close>, an array, an
  object without \<open>type\<close>, and the body of a synthesis response with inline audio.
\<close>

definition doneCompletedText :: string where
  \<open>doneCompletedText = ''{"type":"response.done","response":{"status":"completed"}}''\<close>

definition doneFailedText :: string where
  \<open>doneFailedText = ''{"type":"response.done","response":{"status":"failed"}}''\<close>

definition doneBareText :: string where
  \<open>doneBareText = ''{"type":"response.done"}''\<close>

definition finishedText :: string where
  \<open>finishedText = ''{"type":"session.finished"}''\<close>

definition deltaText :: string where
  \<open>deltaText = ''{"type":"response.audio.delta","delta":"AQIDBA=="}''\<close>

definition arrayText :: string where
  \<open>arrayText = ''[1]''\<close>

definition noTypeText :: string where
  \<open>noTypeText = ''{"event_id":"e1"}''\<close>

definition inlineBodyText :: string where
  \<open>inlineBodyText = ''{"output":{"audio":{"data":"AQIDBA=="}}}''\<close>

definition exampleParse :: "string \<Rightarrow> json option" where
  "exampleParse str =
     (if str = doneCompletedText then
        Some (JObject [(''type'', JString ''response.done''),
                       (''response'', JObject [(''status'', JString ''completed'')])])
      else if str = doneFailedText then
        Some (JObject [(''type'', JString ''response.done''),
                       (''response'', JObject [(''status'', JString ''failed'')])])
      else if str = doneBareText then
        Some (JObject [(''type'', JString ''response.done'')])
      else if str = finishedText then
        Some (JObject [(''type'', JString ''session.finished'')])
      else if str = deltaText then
        Some (JObject [(''type'', JString ''response.audio.delta''), (''delta'', JString ''AQIDBA=='')])
      else if str = arrayText then
        Some (JArray [JNumber 1])
      else if str = noTypeText then
        Some (JObject [(''event_id'', JString ''e1'')])
      else if str = inlineBodyText then
        Some (JObject [(''output'', JObject [(''audio'', JObject [(''data'', JString ''AQIDBA=='')])])])
      else None)"

definition examplePlatform :: platform where
  "examplePlatform = \<lparr>JSON_parse = exampleParse, fromBase64 = (\<lambda>str. Inr (base64Decode str))\<rparr>"

definition exampleParams :: voice_params where
  "exampleParams = \<lparr>modelId = ''voice-tts-realtime-v1'', voiceId = ''v1'',
                      text_param = ''Hello there, this is a test.'', qwenApiKey = ''key''\<rparr>"

definition batchParams :: voice_params where
  "batchParams = \<lparr>modelId = ''voice-tts-batch-v1'', voiceId = ''v1'',
                    text_param = ''Hello there, this is a test.'', qwenApiKey = ''key''\<rparr>"

text \<open>A buffer that begins with RIFF, holds a data chunk, and is not a WAVE container.\<close>

definition riffNotWave :: buffer where
  "riffNotWave =
     [0x52, 0x49, 0x46, 0x46,  40, 0, 0, 0,  0x41, 0x56, 0x49, 0x20,
      0x66, 0x6D, 0x74, 0x20,  16, 0, 0, 0,  1, 0,  1, 0,  0xC0, 0x5D, 0, 0,  0x80, 0xBB, 0, 0,
      2, 0,  16, 0,  0x64, 0x61, 0x74, 0x61,  4, 0, 0, 0,  0, 0, 0, 0]"

text \<open>A synthesis response with inline audio, a download that fails, and queues that hold the job \<open>t1\<close> twice and a locked job \<open>t3\<close>.\<close>

definition inlineResponse :: http_response where
  "inlineResponse = \<lparr>ok = True, status = 200, responseText = inlineBodyText\<rparr>"

definition noDownload :: "string \<Rightarrow> audio_response" where
  "noDownload url = \<lparr>audio_ok = False, audio_status = 404, arrayBuffer = []\<rparr>"

definition exampleQueues :: "nat queues" where
  "exampleQueues queue =
     (case queue of
        Image \<Rightarrow> Map.empty
      | Video \<Rightarrow> [''t1'' \<mapsto> \<lparr>jobData = 1, locked = False\<rparr>]
      | Voice \<Rightarrow> [''t1'' \<mapsto> \<lparr>jobData = 2, locked = False\<rparr>]
      | Text \<Rightarrow> [''t3'' \<mapsto> \<lparr>jobData = 3, locked = True\<rparr>])"

section \<open>Properties of the audio container functions\<close>

lemma alloc_44:
  "alloc 44 = [0,0,0,0, 0,0,0,0, 0,0,0,0, 0,0,0,0, 0,0,0,0, 0,0,0,0, 0,0,0,0, 0,0,0,0,
               0,0,0,0, 0,0,0,0, 0,0,0,0]"
  unfolding alloc_def by code_simp

lemma asciiBytes_tags:
  "asciiBytes ''RIFF'' = [0x52, 0x49, 0x46, 0x46]"
  "asciiBytes ''WAVE'' = [0x57, 0x41, 0x56, 0x45]"
  "asciiBytes ''fmt '' = [0x66, 0x6D, 0x74, 0x20]"
  "asciiBytes ''data'' = [0x64, 0x61, 0x74, 0x61]"
  by (simp_all add: asciiBytes_def)

lemma toStringAscii_tags:
  "toStringAscii [0x52, 0x49, 0x46, 0x46] = ''RIFF''"
  "toStringAscii [0x57, 0x41, 0x56, 0x45] = ''WAVE''"
  "toStringAscii [0x66, 0x6D, 0x74, 0x20] = ''fmt ''"
  "toStringAscii [0x64, 0x61, 0x74, 0x61] = ''data''"
  "toStringAscii [0x41, 0x56, 0x49, 0x20] = ''AVI ''"
  by code_simp+

lemmas wrap_defs =
  wrapPcm16MonoToWav_def alloc_44 asciiBytes_tags andThen_def writeAscii_def writeUInt32LE_def
  writeUInt16LE_def writeBytes_def u32le_def u16le_def Let_def

lemma length_wavHeader: "length (wavHeader n sampleRate) = 44"
  by (simp add: wavHeader_def asciiBytes_tags u32le_def u16le_def)

lemma wrapPcm16MonoToWav_in_range:
  assumes "36 + length pcm \<le> 0xFFFFFFFF" and "sampleRate * 2 \<le> 0xFFFFFFFF"
  shows "wrapPcm16MonoToWav pcm sampleRate = Inr (wavHeader (length pcm) sampleRate @ pcm)"
  using assms by (simp add: wavHeader_def wrap_defs)

lemma wrapPcm16MonoToWav_size_out_of_range:
  "36 + length pcm > 0xFFFFFFFF \<Longrightarrow> wrapPcm16MonoToWav pcm sampleRate = Inl RangeError"
  by (simp add: wrap_defs)

lemma wrapPcm16MonoToWav_rate_out_of_range:
  "sampleRate * 2 > 0xFFFFFFFF \<Longrightarrow> wrapPcm16MonoToWav pcm sampleRate = Inl RangeError"
  by (simp add: wrap_defs)

text \<open>Reading back a 32-bit field that was written little-endian.\<close>

lemma u32le_value:
  assumes "v \<le> 0xFFFFFFFF"
  shows "unat (word_of_nat v :: byte) + unat (word_of_nat (v div 2 ^ 8) :: byte) * 2 ^ 8
          + unat (word_of_nat (v div 2 ^ 16) :: byte) * 2 ^ 16
          + unat (word_of_nat (v div 2 ^ 24) :: byte) * 2 ^ 24 = v"
proof -
  define a where "a = v div 256"
  define b where "b = a div 256"
  define c where "c = b div 256"
  have c: "c < 256" using assms unfolding a_def b_def c_def by simp
  have e1: "v = 256 * a + v mod 256" unfolding a_def by simp
  have e2: "a = 256 * b + a mod 256" unfolding b_def by simp
  have e3: "b = 256 * c + b mod 256" unfolding c_def by simp
  have d2: "v div 65536 = b" unfolding a_def b_def by (simp add: div_mult2_eq)
  have d3: "v div 16777216 = c" unfolding a_def b_def c_def by (simp add: div_mult2_eq)
  have "v mod 256 + a mod 256 * 256 + b mod 256 * 65536 + c mod 256 * 16777216 = v"
    using e1 e2 e3 c by simp
  then show ?thesis using d2 d3 c by (simp add: unat_of_nat a_def)
qed

lemmas header_defs = readUInt32LE_def wavHeader_def asciiBytes_tags u32le_def u16le_def slice_def

lemma findDataSize_wavHeader:
  assumes "36 + n \<le> 0xFFFFFFFF" and "n = length p"
  shows "findDataSize (wavHeader n sampleRate @ p) 12 = (if p = [] then Inr 0 else Inr n)"
proof -
  have n: "n \<le> 0xFFFFFFFF" using assms by simp
  have fmt: "findDataSize (wavHeader n sampleRate @ p) 12 = findDataSize (wavHeader n sampleRate @ p) 36"
    by (subst findDataSize.simps)
      (simp add: length_wavHeader, simp add: header_defs toStringAscii_tags)
  have dat: "findDataSize (wavHeader n sampleRate @ p) 36 = (if p = [] then Inr 0 else Inr n)"
    using assms(2) u32le_value [OF n]
    by (subst findDataSize.simps)
      (simp add: length_wavHeader, simp add: header_defs toStringAscii_tags)
  show ?thesis using fmt dat by simp
qed

lemma Math_round_nonneg: "0 \<le> x \<Longrightarrow> 0 \<le> Math_round x"
  by (simp add: Math_round_def)

text \<open>\<open>Math.round\<close> of the quotient of the fallback, in integers.\<close>

lemma fallbackDuration_eq: "fallbackDuration buf = int ((length buf + 8) div 16)"
proof -
  have "real (length buf * 8) / 128 + 1 / 2 = real (length buf + 8) / real 16"
    by simp
  then have "Math_round (real (length buf * 8) / 128) = \<lfloor>real (length buf + 8) / real 16\<rfloor>"
    unfolding Math_round_def by presburger
  then show ?thesis
    unfolding fallbackDuration_def by (simp only: floor_divide_of_nat_eq)
qed

lemma fallbackDuration_nonneg: "0 \<le> fallbackDuration buf"
  by (simp add: fallbackDuration_eq)

text \<open>
  The double arithmetic of the duration: the bounds of the binade, the error of the
  rounding, and the distance of the rounded duration from the exact value of
  \<open>dataSize / byteRate * 1000\<close>.
\<close>

lemma doubleValue_nonneg: "0 \<le> doubleValue d"
  by (cases d) (simp add: doubleValue_def)

lemma floorlog_powi:
  assumes "0 < x"
  shows "2 powi (int (floorlog 2 x) - 1) \<le> real x" and "real x < 2 powi int (floorlog 2 x)"
proof -
  from floorlog_bounds [OF assms, of 2]
  have b: "2 ^ (floorlog 2 x - 1) \<le> x" "x < 2 ^ floorlog 2 x" by simp_all
  have pos: "0 < floorlog 2 x" using assms by (simp add: floorlog_def)
  then have "int (floorlog 2 x) - 1 = int (floorlog 2 x - 1)" by simp
  then have "(2::real) powi (int (floorlog 2 x) - 1) = 2 ^ (floorlog 2 x - 1)"
    by (simp only: power_int_of_nat)
  also have "\<dots> = real (2 ^ (floorlog 2 x - 1))" by simp
  also have "\<dots> \<le> real x" using b(1) by (simp only: of_nat_le_iff)
  finally show "2 powi (int (floorlog 2 x) - 1) \<le> real x" .
  have "real x < real (2 ^ floorlog 2 x)" using b(2) by (simp only: of_nat_less_iff)
  then show "real x < 2 powi int (floorlog 2 x)" by simp
qed

lemma binade_test:
  "(if 0 \<le> d then q * 2 ^ nat d \<le> p else q \<le> p * 2 ^ nat (- d)) = (real q * 2 powi d \<le> real p)"
proof (cases "0 \<le> d")
  case True
  have "(q * 2 ^ nat d \<le> p) = (real (q * 2 ^ nat d) \<le> real p)" by (simp only: of_nat_le_iff)
  with True show ?thesis by (simp add: power_int_def)
next
  case False
  have "(q \<le> p * 2 ^ nat (- d)) = (real q \<le> real (p * 2 ^ nat (- d)))" by (simp only: of_nat_le_iff)
  with False show ?thesis by (simp add: power_int_def field_simps)
qed

lemma binade_bounds:
  assumes "0 < p" and "0 < q"
  shows "real q * 2 powi binade p q \<le> real p" and "real p < real q * 2 powi (binade p q + 1)"
proof -
  define d where "d = int (floorlog 2 p) - int (floorlog 2 q)"
  have e: "binade p q = (if real q * 2 powi d \<le> real p then d else d - 1)"
    unfolding binade_def d_def [symmetric] Let_def binade_test ..
  note P = floorlog_powi [OF assms(1)] and Q = floorlog_powi [OF assms(2)]
  have low: "real q * 2 powi (d - 1) \<le> real p"
  proof -
    have "(2::real) powi (d - 1) = 2 powi (int (floorlog 2 p) - 1) / 2 powi int (floorlog 2 q)"
      unfolding d_def by (simp add: power_int_diff)
    then have "real q * 2 powi (d - 1)
        = 2 powi (int (floorlog 2 p) - 1) * (real q / 2 powi int (floorlog 2 q))" by simp
    also have "\<dots> \<le> 2 powi (int (floorlog 2 p) - 1) * 1"
      using Q(2) by (intro mult_left_mono) (simp_all add: field_simps)
    finally have "real q * 2 powi (d - 1) \<le> 2 powi (int (floorlog 2 p) - 1)"
      by (simp only: mult_1_right)
    then show ?thesis using P(1) by (rule order_trans)
  qed
  have high: "real p < real q * 2 powi (d + 1)"
  proof -
    have "(2::real) powi (d + 1) = 2 powi int (floorlog 2 p) / 2 powi (int (floorlog 2 q) - 1)"
      unfolding d_def by (simp add: power_int_diff power_int_add algebra_simps)
    then have "real q * 2 powi (d + 1)
        = 2 powi int (floorlog 2 p) * (real q / 2 powi (int (floorlog 2 q) - 1))" by simp
    also have "\<dots> \<ge> 2 powi int (floorlog 2 p) * 1"
      using Q(1) by (intro mult_left_mono) (simp_all add: field_simps)
    finally have "2 powi int (floorlog 2 p) \<le> real q * 2 powi (d + 1)"
      by (simp only: mult_1_right)
    then show ?thesis by (rule less_le_trans [OF P(2)])
  qed
  show "real q * 2 powi binade p q \<le> real p" using e low by simp
  show "real p < real q * 2 powi (binade p q + 1)" using e high by (simp split: if_splits)
qed

lemma roundHalfEven_error:
  assumes "0 < d"
  shows "\<bar>2 * (real (roundHalfEven n d) * real d - real n)\<bar> \<le> real d"
proof -
  define k where "k = n div d"
  define r where "r = n mod d"
  have n: "real n = real k * real d + real r"
    unfolding k_def r_def by (metis div_mult_mod_eq of_nat_add of_nat_mult)
  have r: "r < d" unfolding r_def using assms by simp
  have m: "roundHalfEven n d = (if 2 * r < d then k else if d < 2 * r then k + 1
      else if even k then k else k + 1)"
    by (simp add: roundHalfEven_def Let_def k_def r_def)
  consider "2 * r < d" | "d < 2 * r" | "2 * r = d" by linarith
  then show ?thesis
  proof cases
    case 1
    then have "roundHalfEven n d = k" using m by simp
    moreover have "2 * real r < real d" using 1 by (metis of_nat_less_iff of_nat_mult of_nat_numeral)
    ultimately show ?thesis using n by simp
  next
    case 2
    then have "roundHalfEven n d = k + 1" using m by simp
    moreover have "real d < 2 * real r" using 2 by (metis of_nat_less_iff of_nat_mult of_nat_numeral)
    moreover have "real r < real d" using r by simp
    ultimately show ?thesis using n by (simp add: algebra_simps)
  next
    case 3
    then have "roundHalfEven n d = k \<or> roundHalfEven n d = k + 1" using m by simp
    moreover have "2 * real r = real d" using 3 by (metis of_nat_mult of_nat_numeral)
    ultimately show ?thesis using n by (auto simp: algebra_simps)
  qed
qed


lemma binade_less:
  assumes "0 < p" and "0 < q" and "p < q * 2 ^ n"
  shows "binade p q < int n"
proof (rule ccontr)
  assume "\<not> binade p q < int n"
  then have "(2::real) powi int n \<le> 2 powi binade p q"
    by (intro power_int_increasing) simp_all
  then have "real q * 2 ^ n \<le> real q * 2 powi binade p q"
    by (intro mult_left_mono) simp_all
  also have "\<dots> \<le> real p" using binade_bounds(1) [OF assms(1,2)] .
  finally have "real (q * 2 ^ n) \<le> real p" by simp
  then have "q * 2 ^ n \<le> p" by (simp only: of_nat_le_iff)
  with assms(3) show False by simp
qed

text \<open>
  Below \<open>2 ^ 52\<close> the nearest double has a negative exponent and lies within the relative
  error \<open>2 ^ -53\<close> of the quotient.
\<close>

lemma nearestDouble_small:
  assumes "0 < p" and "0 < q" and "p < q * 2 ^ 52"
  shows "\<exists>m s. 0 < s \<and> nearestDouble p q = (m, - int s)
           \<and> doubleValue (nearestDouble p q) = real m / 2 ^ s
           \<and> \<bar>real m / 2 ^ s - real p / real q\<bar> \<le> real p / real q / 2 ^ 53"
proof -
  define e where "e = binade p q"
  have e52: "e < 52" using binade_less [OF assms] by (simp add: e_def)
  define s where "s = nat (52 - e)"
  have s: "0 < s" "52 - e = int s" using e52 by (simp_all add: s_def)
  define m where "m = roundHalfEven (p * 2 ^ s) q"
  have nd: "nearestDouble p q = (m, - int s)"
    unfolding nearestDouble_def Let_def e_def [symmetric] s(2) m_def by simp
  have dv: "doubleValue (nearestDouble p q) = real m / 2 ^ s"
    unfolding nd using s(1) by (simp add: doubleValue_def)
  have q: "0 < real q" using assms(2) by simp
  define X where "X = real m * real q - real p * 2 ^ s"
  from roundHalfEven_error [OF assms(2), of "p * 2 ^ s"]
  have "\<bar>2 * X\<bar> \<le> real q" by (simp add: m_def X_def)
  then have "\<bar>X\<bar> \<le> real q / 2" by linarith
  then have "\<bar>real m * real q - real p * 2 ^ s\<bar> \<le> real q / 2" by (simp only: X_def)
  then have "\<bar>real m * real q - real p * 2 ^ s\<bar> / (real q * 2 ^ s) \<le> real q / 2 / (real q * 2 ^ s)"
    using q by (intro divide_right_mono) simp_all
  moreover have "\<bar>real m * real q - real p * 2 ^ s\<bar> / (real q * 2 ^ s) = \<bar>real m / 2 ^ s - real p / real q\<bar>"
  proof -
    have "real m / 2 ^ s - real p / real q = (real m * real q - real p * 2 ^ s) / (real q * 2 ^ s)"
      using q by (simp add: field_simps)
    then show ?thesis using q by (simp add: abs_mult)
  qed
  moreover have "real q / 2 / (real q * 2 ^ s) = 1 / 2 ^ (s + 1)" using q by simp
  ultimately have err: "\<bar>real m / 2 ^ s - real p / real q\<bar> \<le> 1 / 2 ^ (s + 1)" by simp
  have es: "e = 52 - int s" using s(2) by linarith
  have "(2::real) powi e = 2 powi 52 / 2 powi int s"
    unfolding es by (rule power_int_diff) simp
  then have pe: "(2::real) powi e = 2 ^ 52 / 2 ^ s" by simp
  have "real q * 2 powi e \<le> real p" using binade_bounds(1) [OF assms(1,2)] by (simp add: e_def)
  then have "2 powi e \<le> real p / real q" using q by (simp add: field_simps)
  then have "2 ^ 52 / 2 ^ s / 2 ^ 53 \<le> real p / real q / 2 ^ 53"
    unfolding pe by (intro divide_right_mono) simp_all
  moreover have "(2::real) ^ 52 / 2 ^ s / 2 ^ 53 = 1 / 2 ^ (s + 1)" by simp
  ultimately have "1 / 2 ^ (s + 1) \<le> real p / real q / 2 ^ 53" by simp
  with err have "\<bar>real m / 2 ^ s - real p / real q\<bar> \<le> real p / real q / 2 ^ 53" by linarith
  with s(1) nd dv show ?thesis by blast
qed

lemma Math_round_near: "\<bar>real_of_int (Math_round y) - y\<bar> \<le> 1 / 2"
proof -
  have "real_of_int \<lfloor>y + 1 / 2\<rfloor> \<le> y + 1 / 2" "y + 1 / 2 < real_of_int \<lfloor>y + 1 / 2\<rfloor> + 1"
    by linarith+
  then show ?thesis unfolding Math_round_def by linarith
qed

lemma double_duration_error:
  assumes "0 < a" and "a < 2 ^ 32" and "0 < b"
  shows "\<bar>real_of_int (Math_round (doubleValue (times_double (divide_double a b) 1000)))
           - real a / real b * 1000\<bar> \<le> 1 / 2 + 1 / 512"
proof -
  define x where "x = real a / real b"
  have b1: "1 \<le> real b" using assms(3) by simp
  have x0: "0 < x" using assms(1,3) by (simp add: x_def)
  have "x \<le> real a" unfolding x_def using b1 assms(1)
    by (simp add: field_simps mult_le_cancel_left1)
  moreover have "real a < 2 ^ 32" using assms(2) by (metis of_nat_less_iff of_nat_numeral of_nat_power)
  ultimately have x32: "x < 2 ^ 32" by linarith
  have "a < 2 ^ 52" using assms(2) by (rule less_le_trans) simp
  also have "\<dots> \<le> b * 2 ^ 52" using assms(3) by simp
  finally have small1: "a < b * 2 ^ 52" .
  from nearestDouble_small [OF assms(1,3) small1] obtain m1 s1 where
    s1: "0 < s1" and n1: "nearestDouble a b = (m1, - int s1)"
    and e1: "\<bar>real m1 / 2 ^ s1 - x\<bar> \<le> x / 2 ^ 53"
    unfolding x_def by blast
  define v1 where "v1 = real m1 / 2 ^ s1"
  have "x / 2 ^ 53 < x" using x0 by simp
  with e1 have v1: "0 < v1" "v1 \<le> 2 * x" unfolding v1_def by linarith+
  then have m1: "0 < m1" unfolding v1_def by (simp add: zero_less_divide_iff)
  have t: "times_double (divide_double a b) 1000 = nearestDouble (m1 * 1000) (2 ^ s1)"
    using s1 by (simp add: divide_double_def n1 times_double_def)
  have r: "real (m1 * 1000) / real ((2::nat) ^ s1) = 1000 * v1"
    by (simp add: v1_def)
  have "1000 * v1 < 2 ^ 52" using v1(2) x32 by simp
  then have "real (m1 * 1000) < real (2 ^ s1 * 2 ^ 52)"
    unfolding r [symmetric] by (simp add: field_simps)
  then have small2: "m1 * 1000 < 2 ^ s1 * 2 ^ 52" by (simp only: of_nat_less_iff)
  have pos2: "0 < m1 * 1000" "0 < (2::nat) ^ s1" using m1 by simp_all
  from nearestDouble_small [OF pos2 small2] obtain m2 s2 where
    dv2: "doubleValue (nearestDouble (m1 * 1000) (2 ^ s1)) = real m2 / 2 ^ s2"
    and e2: "\<bar>real m2 / 2 ^ s2 - real (m1 * 1000) / real ((2::nat) ^ s1)\<bar>
              \<le> real (m1 * 1000) / real ((2::nat) ^ s1) / 2 ^ 53"
    by blast
  define v2 where "v2 = real m2 / 2 ^ s2"
  have e2': "\<bar>v2 - 1000 * v1\<bar> \<le> 1000 * v1 / 2 ^ 53"
    using e2 unfolding r v2_def .
  have e1': "\<bar>v1 - x\<bar> \<le> x / 2 ^ 53" using e1 unfolding v1_def .
  have "\<bar>v2 - 1000 * x\<bar> \<le> 1000 * v1 / 2 ^ 53 + 1000 * (x / 2 ^ 53)"
    using e2' e1' by linarith
  also have "\<dots> \<le> 3000 * x / 2 ^ 53" using v1(2) by simp
  also have "\<dots> \<le> 1 / 512" using x32 by simp
  finally have "\<bar>v2 - 1000 * x\<bar> \<le> 1 / 512" .
  moreover have "\<bar>real_of_int (Math_round v2) - v2\<bar> \<le> 1 / 2" by (rule Math_round_near)
  ultimately have "\<bar>real_of_int (Math_round v2) - x * 1000\<bar> \<le> 1 / 2 + 1 / 512" by linarith
  then show ?thesis unfolding t dv2 v2_def x_def .
qed

lemma double_duration_nonneg:
  "0 \<le> Math_round (doubleValue d)"
  using doubleValue_nonneg [of d] by (simp add: Math_round_def)

text \<open>The durations of the examples, computed in doubles.\<close>

lemma floorlog_values:
  "floorlog 2 4 = 3" "floorlog 2 48000 = 16" "floorlog 2 24024 = 15"
  "floorlog 2 6148914691236517000 = 63" "floorlog 2 73786976294838206464 = 67"
  "floorlog 2 4508103226997866000 = 62" "floorlog 2 9007199254740992 = 54"
  by (simp_all add: compute_floorlog)

lemma double_duration_4_48000:
  "Math_round (doubleValue (times_double (divide_double 4 48000) 1000)) = 0"
proof -
  have 1: "divide_double 4 48000 = (6148914691236517, - 66)"
    by (simp add: divide_double_def nearestDouble_def binade_def floorlog_values roundHalfEven_def Let_def)
  have 2: "times_double (6148914691236517, - 66) 1000 = (6004799503160661, - 56)"
    by (simp add: times_double_def nearestDouble_def binade_def floorlog_values roundHalfEven_def Let_def)
  show ?thesis by (simp add: 1 2 doubleValue_def Math_round_def)
qed

text \<open>
  24024 bytes at the byte rate 48000: the product is the double just below 500.5, and the
  duration is 500, where the exact quotient 500.5 would round to 501.
\<close>

lemma double_duration_24024_48000:
  "Math_round (doubleValue (times_double (divide_double 24024 48000) 1000)) = 500"
  "Math_round (real 24024 / real 48000 * 1000) = 501"
proof -
  have 1: "divide_double 24024 48000 = (4508103226997866, - 53)"
    by (simp add: divide_double_def nearestDouble_def binade_def floorlog_values roundHalfEven_def Let_def)
  have 2: "times_double (4508103226997866, - 53) 1000 = (8804889115230207, - 44)"
    by (simp add: times_double_def nearestDouble_def binade_def floorlog_values roundHalfEven_def Let_def)
  show "Math_round (doubleValue (times_double (divide_double 24024 48000) 1000)) = 500"
    by (simp add: 1 2 doubleValue_def Math_round_def)
  show "Math_round (real 24024 / real 48000 * 1000) = 501"
    by (simp add: Math_round_def)
qed

text \<open>The chunk walk reads inside the buffer only, and ends.\<close>

lemma findDataSize_returns: "\<exists>n. findDataSize buf offset = Inr n"
proof (induction buf offset rule: findDataSize.induct)
  case (1 buf offset)
  show ?case
  proof (cases "offset + 8 < length buf")
    case False
    then show ?thesis by (subst findDataSize.simps) simp
  next
    case True
    then obtain chunkSize where r: "readUInt32LE buf (offset + 4) = Inr chunkSize"
      by (simp add: readUInt32LE_def)
    show ?thesis
    proof (cases "toStringAscii (slice buf offset (offset + 4)) = ''data''")
      case True
      with \<open>offset + 8 < length buf\<close> r show ?thesis by (subst findDataSize.simps) simp
    next
      case False
      with 1 [OF True refl r] True r show ?thesis by (subst findDataSize.simps) simp
    qed
  qed
qed

lemma wavDurationTry_nonneg: "wavDurationTry buf = Inr d \<Longrightarrow> 0 \<le> d"
  by (auto simp: wavDurationTry_def andThen_def Let_def fallbackDuration_nonneg double_duration_nonneg
      split: if_splits sum.splits)

lemma getWavDurationFromBuffer_returns: "\<exists>d. getWavDurationFromBuffer buf = Inr d \<and> 0 \<le> d"
  by (cases "wavDurationTry buf")
    (auto simp: getWavDurationFromBuffer_def fallbackDuration_nonneg dest: wavDurationTry_nonneg)

lemma readUInt32LE_short: "length buf < offset + 4 \<Longrightarrow> readUInt32LE buf offset = Inl RangeError"
  by (simp add: readUInt32LE_def)

lemma riffNotWave_findDataSize: "findDataSize riffNotWave 12 = Inr 4"
proof -
  have fmt: "findDataSize riffNotWave 12 = findDataSize riffNotWave 36"
    by (subst findDataSize.simps)
      (simp add: riffNotWave_def slice_def readUInt32LE_def toStringAscii_tags)
  have dat: "findDataSize riffNotWave 36 = Inr 4"
    by (subst findDataSize.simps)
      (simp add: riffNotWave_def slice_def readUInt32LE_def toStringAscii_tags)
  show ?thesis using fmt dat by simp
qed

lemma getWavDurationFromBuffer_wavHeader:
  assumes "36 + length p \<le> 0xFFFFFFFF" and "0 < sr" and "sr * 2 \<le> 0xFFFFFFFF"
  shows "getWavDurationFromBuffer (wavHeader (length p) sr @ p) =
           Inr (if p = [] then 3
                else Math_round (doubleValue (times_double (divide_double (length p) (sr * 2)) 1000)))"
proof -
  let ?w = "wavHeader (length p) sr @ p"
  have rate: "readUInt32LE ?w 28 = Inr (sr * 2)"
    using u32le_value [OF assms(3)] by (simp add: header_defs)
  have find: "findDataSize ?w 12 = (if p = [] then Inr 0 else Inr (length p))"
    using assms(1) by (rule findDataSize_wavHeader) simp
  have fb: "p = [] \<Longrightarrow> fallbackDuration ?w = 3"
    by (simp add: fallbackDuration_eq length_wavHeader)
  have "toStringAscii (slice ?w 0 4) = ''RIFF''"
    by (simp add: header_defs toStringAscii_tags)
  then show ?thesis
    using rate find assms(2) fb
    by (simp add: getWavDurationFromBuffer_def wavDurationTry_def andThen_def)
qed

text \<open>
  Claim C5, as amended. For every byte sequence, \<open>getWavDurationFromBuffer\<close> returns, and
  returns a non-negative integer. Whenever the first four bytes do not read RIFF, or the
  buffer is shorter than the 32 bytes up to the byte-rate field, or the body of the
  \<open>try\<close> block raises, or the chunk walk finds no data chunk of a positive size, or the
  byte-rate field is zero, the result is \<open>Math.round((buffer.length * 8) / 128)\<close>. In
  every other case, that is whenever the first four bytes read RIFF, the byte-rate field
  is positive and the chunk walk from offset 12 finds a data chunk of a positive size, the
  result is \<open>Math.round((dataSize / byteRate) * 1000)\<close>, whatever stands at offset 8: a
  buffer that begins with RIFF without WAVE is parsed like a container.
\<close>

theorem getWavDurationFromBuffer_total_fallback:
  "(\<exists>d. getWavDurationFromBuffer buf = Inr d \<and> 0 \<le> d) \<and>
   (toStringAscii (slice buf 0 4) \<noteq> ''RIFF'' \<or> length buf < 32 \<or> (\<exists>e. wavDurationTry buf = Inl e)
      \<or> findDataSize buf 12 = Inr 0 \<or> readUInt32LE buf 28 = Inr 0
    \<longrightarrow> getWavDurationFromBuffer buf = Inr (Math_round (real (length buf * 8) / 128))) \<and>
   (toStringAscii (slice buf 0 4) = ''RIFF'' \<and> readUInt32LE buf 28 = Inr byteRate \<and> 0 < byteRate
      \<and> findDataSize buf 12 = Inr dataSize \<and> 0 < dataSize
    \<longrightarrow> getWavDurationFromBuffer buf
          = Inr (Math_round (doubleValue (times_double (divide_double dataSize byteRate) 1000))))"
proof (intro conjI impI)
  show "\<exists>d. getWavDurationFromBuffer buf = Inr d \<and> 0 \<le> d"
    by (rule getWavDurationFromBuffer_returns)
next
  assume h: "toStringAscii (slice buf 0 4) \<noteq> ''RIFF'' \<or> length buf < 32
      \<or> (\<exists>e. wavDurationTry buf = Inl e) \<or> findDataSize buf 12 = Inr 0 \<or> readUInt32LE buf 28 = Inr 0"
  have short: "length buf < 32 \<Longrightarrow> readUInt32LE buf 28 = Inl RangeError"
    by (simp add: readUInt32LE_def)
  from h have "getWavDurationFromBuffer buf = Inr (fallbackDuration buf)"
    by (auto simp: getWavDurationFromBuffer_def wavDurationTry_def andThen_def Let_def short
        split: sum.splits)
  then show "getWavDurationFromBuffer buf = Inr (Math_round (real (length buf * 8) / 128))"
    by (simp add: fallbackDuration_def)
next
  assume "toStringAscii (slice buf 0 4) = ''RIFF'' \<and> readUInt32LE buf 28 = Inr byteRate \<and> 0 < byteRate
      \<and> findDataSize buf 12 = Inr dataSize \<and> 0 < dataSize"
  then show "getWavDurationFromBuffer buf
          = Inr (Math_round (doubleValue (times_double (divide_double dataSize byteRate) 1000)))"
    by (simp add: getWavDurationFromBuffer_def wavDurationTry_def andThen_def)
qed

text \<open>
  Witness for C5: a buffer of 24 bytes that begins with RIFF and is cut before the
  byte-rate field has the duration \<open>Math.round(24 * 8 / 128) = 2\<close>; and \<open>riffNotWave\<close>,
  which begins with RIFF, has the byte rate 48000 and a data chunk of 4 bytes, has the
  duration \<open>Math.round((4 / 48000) * 1000) = 0\<close>.
\<close>

theorem getWavDurationFromBuffer_total_fallback_witness:
  "length ([0x52, 0x49, 0x46, 0x46, 0,0,0,0, 0,0,0,0, 0,0,0,0, 0,0,0,0, 0,0,0,0] :: buffer) < 32
   \<and> getWavDurationFromBuffer [0x52, 0x49, 0x46, 0x46, 0,0,0,0, 0,0,0,0, 0,0,0,0, 0,0,0,0, 0,0,0,0]
       = Inr 2
   \<and> toStringAscii (slice riffNotWave 0 4) = ''RIFF'' \<and> readUInt32LE riffNotWave 28 = Inr 48000
   \<and> (0 :: nat) < 48000 \<and> findDataSize riffNotWave 12 = Inr 4 \<and> (0 :: nat) < 4
   \<and> getWavDurationFromBuffer riffNotWave = Inr 0"
proof -
  let ?b = "[0x52, 0x49, 0x46, 0x46, 0,0,0,0, 0,0,0,0, 0,0,0,0, 0,0,0,0, 0,0,0,0] :: buffer"
  have l: "length ?b < 32" by simp
  have "fallbackDuration ?b = 2" by (simp add: fallbackDuration_eq)
  then have "Math_round (real (length ?b * 8) / 128) = 2" by (simp only: fallbackDuration_def)
  with l getWavDurationFromBuffer_total_fallback [of ?b] have 1: "getWavDurationFromBuffer ?b = Inr 2"
    by simp
  have r: "readUInt32LE riffNotWave 28 = Inr 48000"
    by (simp add: riffNotWave_def readUInt32LE_def)
  have h: "toStringAscii (slice riffNotWave 0 4) = ''RIFF''"
    by (simp add: riffNotWave_def slice_def toStringAscii_tags)
  have 2: "getWavDurationFromBuffer riffNotWave = Inr 0"
    using getWavDurationFromBuffer_total_fallback [of riffNotWave 48000 4] r h riffNotWave_findDataSize
      double_duration_4_48000
    by simp
  show ?thesis using l 1 r h riffNotWave_findDataSize 2 by simp
qed

text \<open>
  Counterexample to C5 as stated: \<open>riffNotWave\<close> is not container-formatted (\<open>isWavBuffer\<close>
  is false, the tag at offset 8 is not WAVE), and its duration is computed from its data
  chunk, \<open>Math.round(4 / 48000 * 1000) = 0\<close>, not \<open>Math.round(48 * 8 / 128) = 3\<close>.
\<close>

theorem getWavDurationFromBuffer_not_container_counterexample:
  "\<not> isWavBuffer riffNotWave \<and> getWavDurationFromBuffer riffNotWave = Inr 0
   \<and> Math_round (real (length riffNotWave * 8) / 128) = 3"
proof -
  have 1: "\<not> isWavBuffer riffNotWave"
    by (simp add: isWavBuffer_def riffNotWave_def slice_def toStringAscii_tags)
  have r: "readUInt32LE riffNotWave 28 = Inr 48000"
    by (simp add: riffNotWave_def readUInt32LE_def)
  have h: "toStringAscii (slice riffNotWave 0 4) = ''RIFF''"
    by (simp add: riffNotWave_def slice_def toStringAscii_tags)
  have 2: "getWavDurationFromBuffer riffNotWave = Inr 0"
    using r h riffNotWave_findDataSize double_duration_4_48000
    by (simp add: getWavDurationFromBuffer_def wavDurationTry_def andThen_def)
  have "fallbackDuration riffNotWave = 3"
    by (simp add: fallbackDuration_eq riffNotWave_def)
  then have 3: "Math_round (real (length riffNotWave * 8) / 128) = 3"
    by (simp add: fallbackDuration_def)
  show ?thesis using 1 2 3 by blast
qed

text \<open>
  Claim C6, as amended. For every sequence \<open>p\<close> of samples whose length fits the size field
  (\<open>36 + length p\<close> at most \<open>0xFFFFFFFF\<close>) and every sample rate \<open>sr\<close> above 0 whose byte
  rate \<open>sr * 2\<close> fits its field, \<open>wrapPcm16MonoToWav\<close> returns a buffer of \<open>44 + length p\<close>
  bytes that begins with RIFF, has WAVE at offset 8, the total size \<open>36 + length p\<close> at
  offset 4, the data size \<open>length p\<close> at offset 40 and the samples from offset 44 on. When
  \<open>p\<close> is empty the duration of that buffer is the fallback \<open>Math.round((44 * 8) / 128) = 3\<close>.
  When \<open>p\<close> is not empty it is \<open>Math.round((length p / (sr * 2)) * 1000)\<close> as computed in
  doubles, which lies within \<open>1 / 2 + 1 / 512\<close> of the exact value of
  \<open>length p / (sr * 2) * 1000\<close>: the exact value rounded, up to the rounding of the two double
  operations.
\<close>

theorem wrapPcm16MonoToWav_layout_and_duration:
  assumes "36 + length p \<le> 0xFFFFFFFF" and "0 < sr" and "sr * 2 \<le> 0xFFFFFFFF"
  shows "\<exists>w d. wrapPcm16MonoToWav p sr = Inr w
           \<and> length w = 44 + length p
           \<and> slice w 0 4 = asciiBytes ''RIFF'' \<and> slice w 8 12 = asciiBytes ''WAVE''
           \<and> isWavBuffer w
           \<and> readUInt32LE w 4 = Inr (36 + length p)
           \<and> readUInt32LE w 40 = Inr (length p)
           \<and> drop 44 w = p
           \<and> getWavDurationFromBuffer w = Inr d
           \<and> (p = [] \<longrightarrow> d = 3)
           \<and> (p \<noteq> [] \<longrightarrow>
                d = Math_round (doubleValue (times_double (divide_double (length p) (sr * 2)) 1000))
                \<and> \<bar>real_of_int d - real (length p) / real (sr * 2) * 1000\<bar> \<le> 1 / 2 + 1 / 512)"
proof -
  let ?w = "wavHeader (length p) sr @ p"
  let ?d = "if p = [] then 3
            else Math_round (doubleValue (times_double (divide_double (length p) (sr * 2)) 1000))"
  have n: "length p \<le> 0xFFFFFFFF" using assms(1) by simp
  have w: "wrapPcm16MonoToWav p sr = Inr ?w"
    using assms(1,3) by (rule wrapPcm16MonoToWav_in_range)
  have len: "length ?w = 44 + length p" by (simp add: length_wavHeader)
  have riff: "slice ?w 0 4 = asciiBytes ''RIFF''"
    by (simp add: header_defs)
  have wave: "slice ?w 8 12 = asciiBytes ''WAVE''"
    by (simp add: header_defs)
  have isw: "isWavBuffer ?w"
    unfolding isWavBuffer_def riff wave by (simp add: length_wavHeader asciiBytes_tags toStringAscii_tags)
  have total: "readUInt32LE ?w 4 = Inr (36 + length p)"
    using u32le_value [OF assms(1)] by (simp add: header_defs)
  have dsize: "readUInt32LE ?w 40 = Inr (length p)"
    using u32le_value [OF n] by (simp add: header_defs)
  have body: "drop 44 ?w = p" by (simp add: length_wavHeader)
  have dur: "getWavDurationFromBuffer ?w = Inr ?d"
    using assms by (rule getWavDurationFromBuffer_wavHeader)
  have near: "\<bar>real_of_int ?d - real (length p) / real (sr * 2) * 1000\<bar> \<le> 1 / 2 + 1 / 512"
    if "p \<noteq> []"
  proof -
    have "0 < length p" using that by simp
    moreover have "length p < 2 ^ 32" using assms(1) by simp
    moreover have "0 < sr * 2" using assms(2) by simp
    ultimately have "\<bar>real_of_int (Math_round (doubleValue (times_double
          (divide_double (length p) (sr * 2)) 1000))) - real (length p) / real (sr * 2) * 1000\<bar>
        \<le> 1 / 2 + 1 / 512"
      by (rule double_duration_error)
    with that show ?thesis by simp
  qed
  have e: "p = [] \<longrightarrow> ?d = 3" by simp
  have f: "p \<noteq> [] \<longrightarrow>
      ?d = Math_round (doubleValue (times_double (divide_double (length p) (sr * 2)) 1000))
      \<and> \<bar>real_of_int ?d - real (length p) / real (sr * 2) * 1000\<bar> \<le> 1 / 2 + 1 / 512"
    using near by simp
  show ?thesis using w len riff wave isw total dsize body dur e f by blast
qed

text \<open>
  Witness for C6: four bytes of samples at 24000 Hz give a buffer of 48 bytes with the
  duration \<open>Math.round((4 / 48000) * 1000) = 0\<close>.
\<close>

theorem wrapPcm16MonoToWav_layout_and_duration_witness:
  "36 + length [1, 2, 3, 4 :: byte] \<le> (0xFFFFFFFF :: nat) \<and> (0 :: nat) < 24000
   \<and> (24000 :: nat) * 2 \<le> 0xFFFFFFFF \<and> [1, 2, 3, 4 :: byte] \<noteq> []
   \<and> wrapPcm16MonoToWav [1, 2, 3, 4] 24000 = Inr (wavHeader 4 24000 @ [1, 2, 3, 4])
   \<and> length (wavHeader 4 24000 @ [1, 2, 3, 4 :: byte]) = 48
   \<and> readUInt32LE (wavHeader 4 24000 @ [1, 2, 3, 4]) 4 = Inr 40
   \<and> readUInt32LE (wavHeader 4 24000 @ [1, 2, 3, 4]) 40 = Inr 4
   \<and> getWavDurationFromBuffer (wavHeader 4 24000 @ [1, 2, 3, 4]) = Inr 0"
proof -
  have l: "length [1, 2, 3, 4 :: byte] = 4" by simp
  have w: "wrapPcm16MonoToWav [1, 2, 3, 4] 24000 = Inr (wavHeader 4 24000 @ [1, 2, 3, 4])"
    using wrapPcm16MonoToWav_in_range [of "[1, 2, 3, 4]" 24000] unfolding l by simp
  from wrapPcm16MonoToWav_layout_and_duration [of "[1, 2, 3, 4]" 24000]
  obtain w' d where
    "wrapPcm16MonoToWav [1, 2, 3, 4] 24000 = Inr w'" "length w' = 44 + length [1, 2, 3, 4 :: byte]"
    "readUInt32LE w' 4 = Inr (36 + length [1, 2, 3, 4 :: byte])"
    "readUInt32LE w' 40 = Inr (length [1, 2, 3, 4 :: byte])"
    "getWavDurationFromBuffer w' = Inr d"
    "d = Math_round (doubleValue (times_double (divide_double (length [1, 2, 3, 4 :: byte]) (24000 * 2)) 1000))"
    by auto
  then show ?thesis
    unfolding l w using double_duration_4_48000 by simp
qed

text \<open>
  Counterexample to C6 as stated: for the empty sequence of samples at 24000 Hz the
  duration of the wrapped buffer is 3, not \<open>Math.round(0 / 48000 * 1000) = 0\<close>; for 24024
  bytes of samples at 24000 Hz it is 500, where the exact quotient rounds to 501; and at
  the sample rate \<open>2147483648\<close> the wrapper raises a range error instead of returning a
  buffer.
\<close>

theorem wrapPcm16MonoToWav_empty_counterexample:
  "andThen (wrapPcm16MonoToWav [] 24000) getWavDurationFromBuffer = Inr 3
   \<and> Math_round (real (length ([] :: buffer)) / real (24000 * 2 :: nat) * 1000) = 0
   \<and> andThen (wrapPcm16MonoToWav (replicate 24024 0) 24000) getWavDurationFromBuffer = Inr 500
   \<and> Math_round (real (length (replicate 24024 0 :: buffer)) / real (24000 * 2 :: nat) * 1000) = 501
   \<and> wrapPcm16MonoToWav [] 2147483648 = Inl RangeError"
proof -
  have w: "wrapPcm16MonoToWav [] 24000 = Inr (wavHeader 0 24000)"
    using wrapPcm16MonoToWav_in_range [of "[]" 24000] by simp
  have f: "findDataSize (wavHeader 0 24000) 12 = Inr 0"
    using findDataSize_wavHeader [of 0 "[]" 24000] by simp
  have h: "toStringAscii (slice (wavHeader 0 24000) 0 4) = ''RIFF''"
    by (simp add: header_defs toStringAscii_tags)
  have r: "readUInt32LE (wavHeader 0 24000) 28 = Inr 48000"
    using u32le_value [of 48000] by (simp add: header_defs)
  have "fallbackDuration (wavHeader 0 24000) = 3"
    by (simp add: fallbackDuration_eq length_wavHeader)
  then have 1: "andThen (wrapPcm16MonoToWav [] 24000) getWavDurationFromBuffer = Inr 3"
    using w f h r by (simp add: andThen_def getWavDurationFromBuffer_def wavDurationTry_def)
  have 2: "Math_round (real (length ([] :: buffer)) / real (24000 * 2 :: nat) * 1000) = 0"
    by (simp add: Math_round_def)
  have 3: "wrapPcm16MonoToWav [] 2147483648 = Inl RangeError"
    by (rule wrapPcm16MonoToWav_rate_out_of_range) simp
  let ?p = "replicate 24024 0 :: buffer"
  have l: "length ?p = 24024" "?p \<noteq> []" by simp_all
  have "wrapPcm16MonoToWav ?p 24000 = Inr (wavHeader 24024 24000 @ ?p)"
    using wrapPcm16MonoToWav_in_range [of ?p 24000] unfolding l by simp
  moreover have "getWavDurationFromBuffer (wavHeader 24024 24000 @ ?p) = Inr 500"
    using getWavDurationFromBuffer_wavHeader [of ?p 24000] double_duration_24024_48000(1)
    unfolding l(1) using l(2) by simp
  ultimately have 4: "andThen (wrapPcm16MonoToWav ?p 24000) getWavDurationFromBuffer = Inr 500"
    by (simp add: andThen_def)
  have 5: "Math_round (real (length ?p) / real (24000 * 2 :: nat) * 1000) = 501"
    unfolding l(1) using double_duration_24024_48000(2) by simp
  show ?thesis using 1 2 3 4 5 by blast
qed

section \<open>Properties of the realtime session\<close>


lemma emit_simps [simp]:
  "effects (emit es s) = effects s @ es"
  "settled (emit es s) = settled s"
  "audioChunks (emit es s) = audioChunks s"
  "hasResponseDone (emit es s) = hasResponseDone s"
  "hasSessionFinished (emit es s) = hasSessionFinished s"
  by (simp_all add: emit_def)

lemma settlements_emit: "settlements (emit es s) = settlements s @ filter isSettlement es"
  by (simp add: settlements_def)

lemma closes_emit: "closes (emit es s) = closes s @ filter isWsClose es"
  by (simp add: closes_def)

lemma settlements_update [simp]:
  "settlements (s\<lparr>audioChunks := a\<rparr>) = settlements s"
  "settlements (s\<lparr>hasResponseDone := b\<rparr>) = settlements s"
  "settlements (s\<lparr>hasSessionFinished := b\<rparr>) = settlements s"
  "settlements (s\<lparr>settled := b\<rparr>) = settlements s"
  by (simp_all add: settlements_def)

lemma closes_update [simp]:
  "closes (s\<lparr>audioChunks := a\<rparr>) = closes s"
  "closes (s\<lparr>hasResponseDone := b\<rparr>) = closes s"
  "closes (s\<lparr>hasSessionFinished := b\<rparr>) = closes s"
  "closes (s\<lparr>settled := b\<rparr>) = closes s"
  by (simp_all add: closes_def)

lemma quiet_refl [simp]: "quiet s s"
  by (simp add: quiet_def)

lemma quiet_update [simp]:
  "quiet s (s\<lparr>audioChunks := a\<rparr>)"
  "quiet s (s\<lparr>hasResponseDone := b\<rparr>)"
  "quiet s (s\<lparr>hasSessionFinished := b\<rparr>)"
  by (simp_all add: quiet_def)

lemma quiet_sends [simp]: "quiet s (emit (map WsSend msgs) s)"
  by (simp add: quiet_def settlements_emit closes_emit filter_empty_conv flip: filter_map)

lemma fail_settled: "settled s \<Longrightarrow> fail s e = s"
  by (simp add: fail_def)

lemma finish_settled: "settled s \<Longrightarrow> finish s = s"
  by (simp add: finish_def)

lemma settled_fail [simp]: "settled (fail s e)"
  by (simp add: fail_def)

lemma settled_finish [simp]: "settled (finish s)"
  by (simp add: finish_def Let_def split: sum.splits)

lemma effects_fail:
  "\<not> settled s \<Longrightarrow> effects (fail s e) = effects s @ [ClearTimeout, WsClose 1011, Reject e]"
  by (simp add: fail_def)

lemma effects_finish_empty:
  "\<not> settled s \<Longrightarrow> audioChunks s = [] \<Longrightarrow>
   effects (finish s) = effects s @ [ClearTimeout, Reject (QWEN_TTS_INVALID_RESPONSE ''missing response.audio.delta'')]"
  by (simp add: finish_def)

lemma effects_finish_audio:
  "\<not> settled s \<Longrightarrow> audioChunks s \<noteq> [] \<Longrightarrow>
   normalizeQwenAudioToWav (concat (audioChunks s)) 24000 = Inr wav \<Longrightarrow>
   getWavDurationFromBuffer wav = Inr d \<Longrightarrow>
   effects (finish s) = effects s @ [ClearTimeout, Resolve \<lparr>audioData = wav, audioDuration = d\<rparr>, WsClose 1000]"
  by (simp add: finish_def)

lemma finish_once:
  "\<not> settled s \<Longrightarrow> \<exists>es. effects (finish s) = effects s @ es \<and> length (filter isSettlement es) \<le> 1
      \<and> length (filter isWsClose es) \<le> 1"
  by (simp add: finish_def Let_def split: sum.splits)

lemma onOpen_handled: "handled s (onOpen params s sends)"
  by (cases sends) (simp_all add: onOpen_def Let_def handled.intros)

lemma onErrorEvent_handled: "handled s (onErrorEvent s messageText messageData)"
  by (simp add: onErrorEvent_def Let_def handled.intros)

lemma onAudioDelta_handled: "handled s (onAudioDelta pf s messageData)"
  by (simp add: onAudioDelta_def handled.intros split: option.split sum.split)

lemma onResponseDone_handled: "handled s (onResponseDone s messageData)"
  by (simp add: onResponseDone_def Let_def handled.intros split: option.split)

lemma onSessionFinished_handled: "handled s (onSessionFinished s)"
  by (simp add: onSessionFinished_def Let_def handled.intros)

lemma dispatchEvent_handled: "handled s (dispatchEvent pf s messageText messageData eventType)"
  by (simp add: dispatchEvent_def onErrorEvent_handled onAudioDelta_handled onResponseDone_handled
      onSessionFinished_handled handled.intros)

lemma onMessage_handled: "handled s (onMessage pf s data)"
  by (simp add: onMessage_def Let_def dispatchEvent_handled handled.intros split: option.split)

lemma step_handled: "handled s (step pf params s event)"
  by (cases event) (simp_all add: onOpen_handled onMessage_handled onError_def onClose_def onTimeout_def Let_def handled.intros)

lemma handled_settled:
  assumes "handled s s'" and "settled s"
  shows "settled s' \<and> settlements s' = settlements s \<and> closes s' = closes s"
  using assms by (induction rule: handled.induct) (auto simp: quiet_def fail_settled finish_settled)

lemma handled_once:
  assumes "handled s s'" and "\<not> settled s" and "settlements s = []" and "closes s = []"
  shows "length (settlements s') \<le> 1 \<and> length (closes s') \<le> 1
         \<and> (\<not> settled s' \<longrightarrow> settlements s' = [] \<and> closes s' = [])"
  using assms
proof (induction rule: handled.induct)
  case (keeps s s')
  then show ?case by (simp add: quiet_def)
next
  case (fails s s' e)
  then show ?case by (simp add: quiet_def settlements_def closes_def effects_fail)
next
  case (finishes s s')
  then have u: "\<not> settled s'" by (simp add: quiet_def)
  from finish_once [OF u] obtain es where
    "effects (finish s') = effects s' @ es" "length (filter isSettlement es) \<le> 1"
    "length (filter isWsClose es) \<le> 1" by blast
  with finishes show ?case by (simp add: quiet_def settlements_def closes_def)
qed


lemma run_Nil [simp]: "run pf params s [] = s"
  by (simp add: run_def)

lemma run_Cons: "run pf params s (event # events) = run pf params (step pf params s event) events"
  by (simp add: run_def)

lemma run_append: "run pf params s (xs @ ys) = run pf params (run pf params s xs) ys"
  by (simp add: run_def)

lemma run_settled:
  "settled s \<Longrightarrow> settled (run pf params s events) \<and> settlements (run pf params s events) = settlements s
     \<and> closes (run pf params s events) = closes s"
proof (induction events arbitrary: s)
  case Nil
  then show ?case by simp
next
  case (Cons event events)
  from handled_settled [OF step_handled Cons.prems]
  have "settled (step pf params s event)" "settlements (step pf params s event) = settlements s"
    "closes (step pf params s event) = closes s" by simp_all
  with Cons.IH [of "step pf params s event"] show ?case by (simp add: run_Cons)
qed

lemma run_once:
  assumes "\<not> settled s" and "settlements s = []" and "closes s = []"
  shows "length (settlements (run pf params s events)) \<le> 1 \<and> length (closes (run pf params s events)) \<le> 1
         \<and> (\<not> settled (run pf params s events) \<longrightarrow>
               settlements (run pf params s events) = [] \<and> closes (run pf params s events) = [])"
  using assms
proof (induction events arbitrary: s)
  case Nil
  then show ?case by simp
next
  case (Cons event events)
  let ?s = "step pf params s event"
  from handled_once [OF step_handled Cons.prems, of pf params event]
  have h: "length (settlements ?s) \<le> 1 \<and> length (closes ?s) \<le> 1
           \<and> (\<not> settled ?s \<longrightarrow> settlements ?s = [] \<and> closes ?s = [])" .
  show ?case
  proof (cases "settled ?s")
    case True
    with h run_settled [OF True, of pf params events] show ?thesis by (simp add: run_Cons)
  next
    case False
    with h Cons.IH [of ?s] show ?thesis by (simp add: run_Cons)
  qed
qed

lemma newSession_simps [simp]:
  "\<not> settled newSession" "settlements newSession = []" "closes newSession = []"
  "audioChunks newSession = []" "effects newSession = []"
  "\<not> hasResponseDone newSession" "\<not> hasSessionFinished newSession"
  by (simp_all add: newSession_def settlements_def closes_def)

lemma reachable_unsettled:
  "\<not> settled (run pf params newSession events) \<Longrightarrow>
   settlements (run pf params newSession events) = [] \<and> closes (run pf params newSession events) = []"
  using run_once [of newSession pf params events] by simp

lemma onMessage_inbound:
  "inbound pf data obj eventType \<Longrightarrow>
   onMessage pf s data = dispatchEvent pf s (trim (decodeWsMessageToText data)) (Some (JObject obj)) eventType"
  by (simp add: inbound_def onMessage_def Let_def isRecord_def getProp_def)

lemma onMessage_session_finished:
  "inbound pf data obj ''session.finished'' \<Longrightarrow>
   onMessage pf s data = onSessionFinished s"
  by (simp add: onMessage_inbound dispatchEvent_def)

lemma onMessage_response_done:
  "inbound pf data obj ''response.done'' \<Longrightarrow>
   onMessage pf s data = onResponseDone s (Some (JObject obj))"
  by (simp add: onMessage_inbound dispatchEvent_def)

lemma onResponseDone_status:
  "onResponseDone s (Some (JObject obj)) =
     (case responseStatus obj of
        Some st \<Rightarrow>
          if st \<noteq> ''completed'' then fail (s\<lparr>hasResponseDone := True\<rparr>) (QWEN_TTS_FAILED st)
          else if hasSessionFinished s then finish (s\<lparr>hasResponseDone := True\<rparr>)
          else s\<lparr>hasResponseDone := True\<rparr>
      | None \<Rightarrow>
          if hasSessionFinished s then finish (s\<lparr>hasResponseDone := True\<rparr>)
          else s\<lparr>hasResponseDone := True\<rparr>)"
  by (simp add: onResponseDone_def responseStatus_def Let_def getProp_def isRecord_def
      split: option.split json.split)

lemma normalize_returns:
  assumes "36 + length raw \<le> 0xFFFFFFFF"
  shows "\<exists>wav. normalizeQwenAudioToWav raw 24000 = Inr wav"
  using assms wrapPcm16MonoToWav_in_range [of raw 24000]
  by (simp add: normalizeQwenAudioToWav_def)

lemma finish_resolves:
  assumes "\<not> settled s" and "audioChunks s \<noteq> []"
    and "normalizeQwenAudioToWav (concat (audioChunks s)) 24000 = Inr (audioData r)"
    and "getWavDurationFromBuffer (audioData r) = Inr (audioDuration r)"
  shows "settlements (finish s) = settlements s @ [Resolve r]"
    and "closes (finish s) = closes s @ [WsClose 1000]"
  using assms effects_finish_audio [of s "audioData r" "audioDuration r"]
  by (simp_all add: settlements_def closes_def)

lemma promise_resolved:
  "settlements (run pf params newSession events) = [Resolve r] \<Longrightarrow>
   generateVoiceWithQwenRealtimeTTS pf params events = Some (Inr r)"
  by (simp add: generateVoiceWithQwenRealtimeTTS_def)

lemma finish_flags [simp]:
  "hasResponseDone (finish s) = hasResponseDone s"
  "hasSessionFinished (finish s) = hasSessionFinished s"
  "audioChunks (finish s) = audioChunks s"
  by (simp_all add: finish_def Let_def split: sum.splits)

lemma fail_flags [simp]:
  "hasResponseDone (fail s e) = hasResponseDone s"
  "hasSessionFinished (fail s e) = hasSessionFinished s"
  "audioChunks (fail s e) = audioChunks s"
  by (simp_all add: fail_def)

lemma onSessionFinished_resolves:
  assumes "\<not> settled s" and "audioChunks s \<noteq> []"
    and "normalizeQwenAudioToWav (concat (audioChunks s)) 24000 = Inr (audioData r)"
    and "getWavDurationFromBuffer (audioData r) = Inr (audioDuration r)"
  shows "settled (onSessionFinished s) \<and> settlements (onSessionFinished s) = settlements s @ [Resolve r]
         \<and> closes (onSessionFinished s) = closes s @ [WsClose 1000]"
  using assms finish_resolves [of "s\<lparr>hasSessionFinished := True\<rparr>" r]
  by (simp add: onSessionFinished_def)

lemma done_then_finished:
  assumes "\<not> settled s" and "audioChunks s \<noteq> []"
    and "normalizeQwenAudioToWav (concat (audioChunks s)) 24000 = Inr (audioData r)"
    and "getWavDurationFromBuffer (audioData r) = Inr (audioDuration r)"
    and "inbound pf d1 o1 ''response.done''"
    and "responseStatus o1 = None \<or> responseStatus o1 = Some ''completed''"
    and "inbound pf d2 o2 ''session.finished''"
  shows "settled (onMessage pf (onMessage pf s d1) d2)
         \<and> settlements (onMessage pf (onMessage pf s d1) d2) = settlements s @ [Resolve r]
         \<and> closes (onMessage pf (onMessage pf s d1) d2) = closes s @ [WsClose 1000]"
proof -
  let ?s1 = "s\<lparr>hasResponseDone := True\<rparr>"
  have m1: "onMessage pf s d1 = (if hasSessionFinished s then finish ?s1 else ?s1)"
    using assms(5,6) by (auto simp: onMessage_response_done onResponseDone_status)
  show ?thesis
  proof (cases "hasSessionFinished s")
    case True
    then have a: "onMessage pf s d1 = finish ?s1" using m1 by simp
    have "settlements (finish ?s1) = settlements s @ [Resolve r]"
      "closes (finish ?s1) = closes s @ [WsClose 1000]"
      using finish_resolves [of ?s1 r] assms(1-4) by simp_all
    with handled_settled [OF onMessage_handled, of "finish ?s1" pf d2] a show ?thesis by simp
  next
    case False
    then have a: "onMessage pf s d1 = ?s1" using m1 by simp
    have "onMessage pf ?s1 d2 = onSessionFinished ?s1"
      using assms(7) by (rule onMessage_session_finished)
    with onSessionFinished_resolves [of ?s1 r] assms(1-4) a show ?thesis by simp
  qed
qed

text \<open>
  What holds of every session, whatever events arrive: at most one call on the promise and
  at most one call of \<open>ws.close\<close>; the pairing of the two; and no further call once the
  session is settled.
\<close>

lemma paired_fail:
  assumes "\<not> settled s" and "settlements s = []" and "closes s = []"
  shows "paired (fail s e)"
  using assms by (simp add: paired_def settlements_def closes_def effects_fail)

lemma paired_finish:
  assumes "\<not> settled s" and "settlements s = []" and "closes s = []"
  shows "paired (finish s)"
  using assms
  by (simp add: paired_def settlements_def closes_def finish_def Let_def split: sum.splits)

lemma handled_paired:
  assumes "handled s s'" and "\<not> settled s" and "settlements s = []" and "closes s = []"
  shows "paired s'"
  using assms
proof (induction rule: handled.induct)
  case (keeps s s')
  then show ?case by (simp add: quiet_def paired_def)
next
  case (fails s s' e)
  then show ?case by (intro paired_fail) (simp_all add: quiet_def)
next
  case (finishes s s')
  then show ?case by (intro paired_finish) (simp_all add: quiet_def)
qed

lemma run_paired:
  assumes "paired s" and "\<not> settled s \<longrightarrow> settlements s = [] \<and> closes s = []"
  shows "paired (run pf params s events)"
  using assms
proof (induction events arbitrary: s)
  case Nil
  then show ?case by simp
next
  case (Cons event events)
  let ?s = "step pf params s event"
  have h: "handled s ?s" by (rule step_handled)
  show ?case
  proof (cases "settled s")
    case True
    from handled_settled [OF h True] Cons.prems(1)
    have "paired ?s" "settled ?s" by (simp_all add: paired_def)
    with Cons.IH [of ?s] show ?thesis by (simp add: run_Cons)
  next
    case False
    with Cons.prems have c: "settlements s = []" "closes s = []" by simp_all
    from handled_paired [OF h False c] have p: "paired ?s" .
    from handled_once [OF h False c]
    have "\<not> settled ?s \<longrightarrow> settlements ?s = [] \<and> closes ?s = []" by simp
    with p Cons.IH [of ?s] show ?thesis by (simp add: run_Cons)
  qed
qed

lemma session_paired: "paired (run pf params newSession events)"
  by (rule run_paired) (simp_all add: paired_def)

lemma session_settles_at_most_once:
  "length (settlements (run pf params newSession events)) \<le> 1
   \<and> length (closes (run pf params newSession events)) \<le> 1"
  using run_once [of newSession pf params events] by simp

lemma onMessage_settled_effects:
  assumes "settled s"
  shows "effects (onMessage pf s data) = effects s"
proof -
  have f: "fail s' e = s'" "finish s' = s'" if "settled s'" for s' e
    using that by (simp_all add: fail_settled finish_settled)
  have d: "effects (dispatchEvent pf s messageText messageData eventType) = effects s"
    for messageText messageData eventType
    using assms
    by (simp add: dispatchEvent_def onErrorEvent_def onAudioDelta_def onResponseDone_def
        onSessionFinished_def Let_def f split: option.split sum.split)
  show ?thesis
    using assms by (simp add: onMessage_def Let_def d f split: option.split)
qed

lemma settled_step_ignored:
  assumes "settled s"
  shows "settled (step pf params s event)"
    and "step pf params s (SocketError message) = s"
    and "step pf params s (Close code reason) = s"
    and "step pf params s Timeout = s"
    and "effects (step pf params s (Message data)) = effects s"
  using assms handled_settled [OF step_handled assms, of pf params event]
  by (simp_all add: onError_def onClose_def onTimeout_def fail_settled onMessage_settled_effects)

section \<open>The concrete inputs, evaluated\<close>

lemmas example_texts =
  doneCompletedText_def doneFailedText_def doneBareText_def finishedText_def deltaText_def
  arrayText_def noTypeText_def inlineBodyText_def

lemma trim_examples:
  "trim doneCompletedText = doneCompletedText" "trim doneFailedText = doneFailedText"
  "trim doneBareText = doneBareText" "trim finishedText = finishedText"
  "trim deltaText = deltaText" "trim arrayText = arrayText" "trim noTypeText = noTypeText"
  "trim ''response.done'' = ''response.done''" "trim ''session.finished'' = ''session.finished''"
  "trim ''response.audio.delta'' = ''response.audio.delta''" "trim ''completed'' = ''completed''"
  "trim ''failed'' = ''failed''" "trim ''AQIDBA=='' = ''AQIDBA==''" "trim ''e1'' = ''e1''"
  "trim ''oops'' = ''oops''" "trim [] = []"
  by (simp_all add: trim_def isWhiteSpace_def example_texts)

lemma exampleParse_values:
  "exampleParse doneCompletedText =
     Some (JObject [(''type'', JString ''response.done''),
                    (''response'', JObject [(''status'', JString ''completed'')])])"
  "exampleParse doneFailedText =
     Some (JObject [(''type'', JString ''response.done''),
                    (''response'', JObject [(''status'', JString ''failed'')])])"
  "exampleParse doneBareText = Some (JObject [(''type'', JString ''response.done'')])"
  "exampleParse finishedText = Some (JObject [(''type'', JString ''session.finished'')])"
  "exampleParse deltaText =
     Some (JObject [(''type'', JString ''response.audio.delta''), (''delta'', JString ''AQIDBA=='')])"
  "exampleParse arrayText = Some (JArray [JNumber 1])"
  "exampleParse noTypeText = Some (JObject [(''event_id'', JString ''e1'')])"
  "exampleParse ''oops'' = None"
  "exampleParse [] = None"
  by (simp_all add: exampleParse_def example_texts)

lemma examplePlatform_simps [simp]:
  "JSON_parse examplePlatform = exampleParse"
  "fromBase64 examplePlatform str = Inr (base64Decode str)"
  by (simp_all add: examplePlatform_def)

lemma nonempty_examples:
  "doneCompletedText \<noteq> []" "doneFailedText \<noteq> []" "doneBareText \<noteq> []" "finishedText \<noteq> []"
  "deltaText \<noteq> []" "arrayText \<noteq> []" "noTypeText \<noteq> []"
  by (simp_all add: example_texts)

lemma inbound_examples:
  "inbound examplePlatform (DataString doneCompletedText)
     [(''type'', JString ''response.done''), (''response'', JObject [(''status'', JString ''completed'')])]
     ''response.done''"
  "inbound examplePlatform (DataString doneFailedText)
     [(''type'', JString ''response.done''), (''response'', JObject [(''status'', JString ''failed'')])]
     ''response.done''"
  "inbound examplePlatform (DataString doneBareText) [(''type'', JString ''response.done'')] ''response.done''"
  "inbound examplePlatform (DataString finishedText) [(''type'', JString ''session.finished'')]
     ''session.finished''"
  "inbound examplePlatform (DataString deltaText)
     [(''type'', JString ''response.audio.delta''), (''delta'', JString ''AQIDBA=='')]
     ''response.audio.delta''"
  by (simp_all add: inbound_def trim_examples exampleParse_values nonempty_examples readOptionalString_def)

lemma responseStatus_examples:
  "responseStatus [(''type'', JString ''response.done''), (''response'', JObject [(''status'', JString ''completed'')])]
     = Some ''completed''"
  "responseStatus [(''type'', JString ''response.done''), (''response'', JObject [(''status'', JString ''failed'')])]
     = Some ''failed''"
  "responseStatus [(''type'', JString ''response.done'')] = None"
  by (simp_all add: responseStatus_def isRecord_def getProp_def readOptionalString_def trim_examples)

lemma base64Decode_example: "base64Decode ''AQIDBA=='' = [1, 2, 3, 4]"
  by (simp add: base64Decode_def sextet_def)

lemma onMessage_delta_example:
  "onMessage examplePlatform s (DataString deltaText) = s\<lparr>audioChunks := audioChunks s @ [[1, 2, 3, 4]]\<rparr>"
  by (simp add: onMessage_inbound [OF inbound_examples(5)] dispatchEvent_def onAudioDelta_def
      getProp_def readOptionalString_def trim_examples base64Decode_example)


lemma example_audio:
  "normalizeQwenAudioToWav [1, 2, 3, 4] 24000 = Inr (wavHeader 4 24000 @ [1, 2, 3, 4])"
  "getWavDurationFromBuffer (wavHeader 4 24000 @ [1, 2, 3, 4]) = Inr 0"
proof -
  have l: "length [1, 2, 3, 4 :: byte] = 4" by simp
  have "wrapPcm16MonoToWav [1, 2, 3, 4] 24000 = Inr (wavHeader 4 24000 @ [1, 2, 3, 4])"
    using wrapPcm16MonoToWav_in_range [of "[1, 2, 3, 4]" 24000] unfolding l by simp
  then show "normalizeQwenAudioToWav [1, 2, 3, 4] 24000 = Inr (wavHeader 4 24000 @ [1, 2, 3, 4])"
    by (simp add: normalizeQwenAudioToWav_def isWavBuffer_def)
  have "getWavDurationFromBuffer (wavHeader 4 24000 @ [1, 2, 3, 4])
        = Inr (Math_round (doubleValue (times_double (divide_double 4 48000) 1000)))"
    using getWavDurationFromBuffer_wavHeader [of "[1, 2, 3, 4]" 24000] unfolding l by simp
  then show "getWavDurationFromBuffer (wavHeader 4 24000 @ [1, 2, 3, 4]) = Inr 0"
    using double_duration_4_48000 by simp
qed

lemma example_pre:
  "\<not> settled (run examplePlatform exampleParams newSession [Open SendsSucceed, Message (DataString deltaText)])"
  "audioChunks (run examplePlatform exampleParams newSession [Open SendsSucceed, Message (DataString deltaText)])
     = [[1, 2, 3, 4]]"
  "\<not> hasResponseDone (run examplePlatform exampleParams newSession
       [Open SendsSucceed, Message (DataString deltaText)])"
  by (simp_all add: run_Cons onOpen_def onMessage_delta_example)

lemma example_done_finished_effects:
  "effects (run examplePlatform exampleParams newSession
      [Message (DataString doneCompletedText), Message (DataString finishedText)])
   = [ClearTimeout, Reject (QWEN_TTS_INVALID_RESPONSE ''missing response.audio.delta'')]"
  by (simp add: run_Cons onMessage_response_done [OF inbound_examples(1)] onResponseDone_status
      responseStatus_examples onMessage_session_finished [OF inbound_examples(4)]
      onSessionFinished_def effects_finish_empty)

lemma example_done_only:
  "\<not> settled (run examplePlatform exampleParams newSession [Message (DataString doneCompletedText)])"
  "audioChunks (run examplePlatform exampleParams newSession [Message (DataString doneCompletedText)]) = []"
  by (simp_all add: run_Cons onMessage_response_done [OF inbound_examples(1)] onResponseDone_status
      responseStatus_examples)

lemma example_finished_done_effects:
  "effects (run examplePlatform exampleParams newSession
      [Message (DataString finishedText), Message (DataString doneBareText)])
   = [ClearTimeout, Reject (QWEN_TTS_INVALID_RESPONSE ''missing response.audio.delta'')]"
  "effects (run examplePlatform exampleParams newSession [Message (DataString finishedText)]) = []"
  by (simp_all add: run_Cons onMessage_response_done [OF inbound_examples(3)] onResponseDone_status
      responseStatus_examples onMessage_session_finished [OF inbound_examples(4)]
      onSessionFinished_def effects_finish_empty)

lemma example_http:
  "\<not> isQwenRealtimeModel (modelId batchParams)"
  "ok inlineResponse"
  "readQwenAudioBase64 (if responseText inlineResponse \<noteq> []
      then JSON_parse examplePlatform (responseText inlineResponse) else None) = Some ''AQIDBA==''"
  "fromBase64 examplePlatform ''AQIDBA=='' = Inr [1, 2, 3, 4]"
proof -
  show "\<not> isQwenRealtimeModel (modelId batchParams)"
    by (simp add: batchParams_def isQwenRealtimeModel_def toLowerCase_def toLowerChar_def)
  show "ok inlineResponse" by (simp add: inlineResponse_def)
  have "exampleParse inlineBodyText
     = Some (JObject [(''output'', JObject [(''audio'', JObject [(''data'', JString ''AQIDBA=='')])])])"
    by (simp add: exampleParse_def example_texts)
  moreover have "inlineBodyText \<noteq> []" by (simp add: example_texts)
  ultimately show "readQwenAudioBase64 (if responseText inlineResponse \<noteq> []
      then JSON_parse examplePlatform (responseText inlineResponse) else None) = Some ''AQIDBA==''"
    by (simp add: inlineResponse_def readQwenAudioBase64_def isRecord_def getProp_def
        readOptionalString_def trim_examples)
  show "fromBase64 examplePlatform ''AQIDBA=='' = Inr [1, 2, 3, 4]"
    by (simp add: base64Decode_example)
qed

lemma example_raw_duration: "getWavDurationFromBuffer [1, 2, 3, 4] = Inr 0"
proof -
  have "toStringAscii [1, 2, 3, 4] \<noteq> ''RIFF''"
    by code_simp
  then have "toStringAscii (slice [1, 2, 3, 4] 0 4) \<noteq> ''RIFF''"
    by (simp add: slice_def)
  then have "getWavDurationFromBuffer [1, 2, 3, 4] = Inr (fallbackDuration [1, 2, 3, 4])"
    by (simp add: getWavDurationFromBuffer_def wavDurationTry_def)
  then show ?thesis by (simp add: fallbackDuration_eq)
qed

section \<open>Claims about the realtime session\<close>

text \<open>
  Claim C1, as amended. Let a session have reached, on the events \<open>pre\<close>, a state
  that is not settled and holds at least one audio chunk, the chunks together fitting the
  32-bit size field of the container. If a \<open>response.done\<close> event with the status
  completed arrives and then a \<open>session.finished\<close> event, the session settles exactly
  once, as success: whatever events follow, the calls on its promise are one \<open>resolve\<close>
  with the normalized audio and its duration, and the socket is closed once with code
  1000. If no \<open>response.done\<close> has arrived and a \<open>session.finished\<close> event arrives, the
  session settles in the same way.
\<close>

theorem completion_order_insensitive:
  assumes "s = run pf params newSession pre"
    and "\<not> settled s" and "audioChunks s \<noteq> []"
    and "36 + length (concat (audioChunks s)) \<le> 0xFFFFFFFF"
  shows "\<exists>r. normalizeQwenAudioToWav (concat (audioChunks s)) 24000 = Inr (audioData r)
           \<and> getWavDurationFromBuffer (audioData r) = Inr (audioDuration r)
           \<and> (inbound pf d1 o1 ''response.done'' \<and> responseStatus o1 = Some ''completed''
                \<and> inbound pf d2 o2 ''session.finished''
               \<longrightarrow> settlements (run pf params s (Message d1 # Message d2 # post)) = [Resolve r]
                   \<and> closes (run pf params s (Message d1 # Message d2 # post)) = [WsClose 1000]
                   \<and> generateVoiceWithQwenRealtimeTTS pf params (pre @ Message d1 # Message d2 # post)
                       = Some (Inr r))
           \<and> (\<not> hasResponseDone s \<and> inbound pf d3 o3 ''session.finished''
               \<longrightarrow> settlements (run pf params s (Message d3 # post)) = [Resolve r]
                   \<and> closes (run pf params s (Message d3 # post)) = [WsClose 1000]
                   \<and> generateVoiceWithQwenRealtimeTTS pf params (pre @ Message d3 # post) = Some (Inr r))"
proof -
  from normalize_returns [OF assms(4)] obtain wav where
    wav: "normalizeQwenAudioToWav (concat (audioChunks s)) 24000 = Inr wav" by blast
  from getWavDurationFromBuffer_returns obtain d where
    d: "getWavDurationFromBuffer wav = Inr d" by blast
  define r where "r = \<lparr>audioData = wav, audioDuration = d\<rparr>"
  have n: "normalizeQwenAudioToWav (concat (audioChunks s)) 24000 = Inr (audioData r)"
    and g: "getWavDurationFromBuffer (audioData r) = Inr (audioDuration r)"
    using wav d by (simp_all add: r_def)
  have clean: "settlements s = []" "closes s = []"
    using reachable_unsettled [of pf params pre] assms(1,2) by simp_all
  have first: "settlements (run pf params s (Message d1 # Message d2 # post)) = [Resolve r]
      \<and> closes (run pf params s (Message d1 # Message d2 # post)) = [WsClose 1000]
      \<and> generateVoiceWithQwenRealtimeTTS pf params (pre @ Message d1 # Message d2 # post) = Some (Inr r)"
    if h: "inbound pf d1 o1 ''response.done''" "responseStatus o1 = Some ''completed''"
      "inbound pf d2 o2 ''session.finished''"
  proof -
    let ?s2 = "onMessage pf (onMessage pf s d1) d2"
    from done_then_finished [OF assms(2,3) n g h(1) _ h(3)] h(2) clean
    have s2: "settled ?s2" "settlements ?s2 = [Resolve r]" "closes ?s2 = [WsClose 1000]"
      by simp_all
    from run_settled [OF s2(1), of pf params post] s2
    have fin: "settlements (run pf params s (Message d1 # Message d2 # post)) = [Resolve r]"
      "closes (run pf params s (Message d1 # Message d2 # post)) = [WsClose 1000]"
      by (simp_all add: run_Cons)
    have "run pf params newSession (pre @ Message d1 # Message d2 # post)
          = run pf params s (Message d1 # Message d2 # post)"
      using assms(1) by (simp add: run_append)
    with fin promise_resolved [of pf params "pre @ Message d1 # Message d2 # post" r]
    show ?thesis by simp
  qed
  have second: "settlements (run pf params s (Message d3 # post)) = [Resolve r]
      \<and> closes (run pf params s (Message d3 # post)) = [WsClose 1000]
      \<and> generateVoiceWithQwenRealtimeTTS pf params (pre @ Message d3 # post) = Some (Inr r)"
    if h: "inbound pf d3 o3 ''session.finished''"
  proof -
    let ?s1 = "onMessage pf s d3"
    have "?s1 = onSessionFinished s" using h by (rule onMessage_session_finished)
    with onSessionFinished_resolves [OF assms(2,3) n g] clean
    have s1: "settled ?s1" "settlements ?s1 = [Resolve r]" "closes ?s1 = [WsClose 1000]"
      by simp_all
    from run_settled [OF s1(1), of pf params post] s1
    have fin: "settlements (run pf params s (Message d3 # post)) = [Resolve r]"
      "closes (run pf params s (Message d3 # post)) = [WsClose 1000]"
      by (simp_all add: run_Cons)
    have "run pf params newSession (pre @ Message d3 # post) = run pf params s (Message d3 # post)"
      using assms(1) by (simp add: run_append)
    with fin promise_resolved [of pf params "pre @ Message d3 # post" r]
    show ?thesis by simp
  qed
  from n g first second show ?thesis by blast
qed

text \<open>
  Witness for C1: after \<open>open\<close> and one audio delta of four bytes, both orders of events
  resolve the promise with the 48 bytes of the wrapped audio.
\<close>

theorem completion_order_insensitive_witness:
  "\<not> settled (run examplePlatform exampleParams newSession [Open SendsSucceed, Message (DataString deltaText)])
   \<and> audioChunks (run examplePlatform exampleParams newSession
         [Open SendsSucceed, Message (DataString deltaText)]) = [[1, 2, 3, 4]]
   \<and> generateVoiceWithQwenRealtimeTTS examplePlatform exampleParams
         [Open SendsSucceed, Message (DataString deltaText), Message (DataString doneCompletedText),
          Message (DataString finishedText), Close 1000 []]
       = Some (Inr \<lparr>audioData = wavHeader 4 24000 @ [1, 2, 3, 4], audioDuration = 0\<rparr>)
   \<and> generateVoiceWithQwenRealtimeTTS examplePlatform exampleParams
         [Open SendsSucceed, Message (DataString deltaText), Message (DataString finishedText), Close 1000 []]
       = Some (Inr \<lparr>audioData = wavHeader 4 24000 @ [1, 2, 3, 4], audioDuration = 0\<rparr>)"
proof -
  let ?pre = "[Open SendsSucceed, Message (DataString deltaText)]"
  let ?s = "run examplePlatform exampleParams newSession ?pre"
  from completion_order_insensitive [where s = ?s and pf = examplePlatform and params = exampleParams
      and pre = ?pre and ?d1.0 = "DataString doneCompletedText" and ?d2.0 = "DataString finishedText"
      and ?d3.0 = "DataString finishedText" and post = "[Close 1000 []]"
      and ?o1.0 = "[(''type'', JString ''response.done''), (''response'', JObject [(''status'', JString ''completed'')])]"
      and ?o2.0 = "[(''type'', JString ''session.finished'')]"
      and ?o3.0 = "[(''type'', JString ''session.finished'')]"]
    example_pre inbound_examples responseStatus_examples
  obtain r where
    n: "normalizeQwenAudioToWav [1, 2, 3, 4] 24000 = Inr (audioData r)"
    and g: "getWavDurationFromBuffer (audioData r) = Inr (audioDuration r)"
    and a: "generateVoiceWithQwenRealtimeTTS examplePlatform exampleParams
         (?pre @ [Message (DataString doneCompletedText), Message (DataString finishedText), Close 1000 []])
       = Some (Inr r)"
    and b: "generateVoiceWithQwenRealtimeTTS examplePlatform exampleParams
         (?pre @ [Message (DataString finishedText), Close 1000 []]) = Some (Inr r)"
    by auto
  from n g example_audio have "r = \<lparr>audioData = wavHeader 4 24000 @ [1, 2, 3, 4], audioDuration = 0\<rparr>"
    by (cases r) simp
  with a b example_pre show ?thesis by simp
qed

text \<open>
  Counterexample to C1 as stated: a session that receives \<open>response.done\<close> with the
  status completed and then \<open>session.finished\<close>, and no audio delta, settles as failure.
\<close>

theorem completed_then_finished_without_audio_counterexample:
  "generateVoiceWithQwenRealtimeTTS examplePlatform exampleParams
     [Message (DataString doneCompletedText), Message (DataString finishedText)]
   = Some (Inl (QWEN_TTS_INVALID_RESPONSE ''missing response.audio.delta''))"
  by (simp only: generateVoiceWithQwenRealtimeTTS_def settlements_def example_done_finished_effects)
    simp

text \<open>
  Claim C2, at the input where the code departs from it: \<open>open\<close>, then
  \<open>response.done\<close> with the status completed, then \<open>session.finished\<close>, with no audio
  delta. \<open>finish\<close> rejects the promise and returns before \<open>ws.close\<close>: the session is
  settled as failure and has made no call of \<open>ws.close\<close>, also after the socket's close
  event and the timer.
\<close>

theorem empty_finish_leaves_socket_open:
  "settled (run examplePlatform exampleParams newSession
      [Open SendsSucceed, Message (DataString doneCompletedText), Message (DataString finishedText),
       Close 1005 [], Timeout])
   \<and> effects (run examplePlatform exampleParams newSession
      [Open SendsSucceed, Message (DataString doneCompletedText), Message (DataString finishedText),
       Close 1005 [], Timeout])
     = map WsSend (openEvents exampleParams)
       @ [ClearTimeout, Reject (QWEN_TTS_INVALID_RESPONSE ''missing response.audio.delta'')]
   \<and> closes (run examplePlatform exampleParams newSession
      [Open SendsSucceed, Message (DataString doneCompletedText), Message (DataString finishedText),
       Close 1005 [], Timeout]) = []"
proof -
  let ?s0 = "emit (map WsSend (openEvents exampleParams)) newSession"
  let ?s2 = "run examplePlatform exampleParams newSession
      [Open SendsSucceed, Message (DataString doneCompletedText), Message (DataString finishedText)]"
  have e: "effects ?s2 = map WsSend (openEvents exampleParams)
       @ [ClearTimeout, Reject (QWEN_TTS_INVALID_RESPONSE ''missing response.audio.delta'')]"
    and st: "settled ?s2"
    by (simp_all add: run_Cons onOpen_def onMessage_response_done [OF inbound_examples(1)] onResponseDone_status
      responseStatus_examples onMessage_session_finished [OF inbound_examples(4)]
      onSessionFinished_def effects_finish_empty)
  have "run examplePlatform exampleParams newSession
      [Open SendsSucceed, Message (DataString doneCompletedText), Message (DataString finishedText),
       Close 1005 [], Timeout] = ?s2"
    using st by (simp add: run_Cons run_append [of _ _ _ "[Open SendsSucceed, Message (DataString doneCompletedText), Message (DataString finishedText)]" "[Close 1005 [], Timeout]", simplified] onClose_def onTimeout_def fail_settled)
  with e st show ?thesis
    by (simp add: closes_def openEvents_def)
qed

text \<open>
  Claim C4. When \<open>finish\<close> is taken on a session that is not settled and holds no
  audio chunk, the session settles, and the only call on its promise is a \<open>reject\<close> with
  \<open>QWEN_TTS_INVALID_RESPONSE: missing response.audio.delta\<close>; no \<open>resolve\<close> is made. For
  a session reached from a new one, that \<open>reject\<close> is its one settlement.
\<close>

theorem finish_without_audio_fails:
  assumes "\<not> settled s" and "audioChunks s = []"
  shows "settled (finish s)
         \<and> effects (finish s) = effects s
               @ [ClearTimeout, Reject (QWEN_TTS_INVALID_RESPONSE ''missing response.audio.delta'')]
         \<and> settlements (finish s) = settlements s
               @ [Reject (QWEN_TTS_INVALID_RESPONSE ''missing response.audio.delta'')]
         \<and> (s = run pf params newSession events \<longrightarrow>
               settlements (finish s) = [Reject (QWEN_TTS_INVALID_RESPONSE ''missing response.audio.delta'')])"
proof -
  have e: "effects (finish s) = effects s
      @ [ClearTimeout, Reject (QWEN_TTS_INVALID_RESPONSE ''missing response.audio.delta'')]"
    using assms by (rule effects_finish_empty)
  then have t: "settlements (finish s) = settlements s
      @ [Reject (QWEN_TTS_INVALID_RESPONSE ''missing response.audio.delta'')]"
    by (simp add: settlements_def)
  have "settlements s = []" if "s = run pf params newSession events"
    using that assms(1) reachable_unsettled [of pf params events] by simp
  with e t show ?thesis by auto
qed

text \<open>
  Witness for C4: the session that has received \<open>response.done\<close> with the status
  completed and no audio.
\<close>

theorem finish_without_audio_fails_witness:
  "\<not> settled (run examplePlatform exampleParams newSession [Message (DataString doneCompletedText)])
   \<and> audioChunks (run examplePlatform exampleParams newSession [Message (DataString doneCompletedText)]) = []
   \<and> settled (finish (run examplePlatform exampleParams newSession [Message (DataString doneCompletedText)]))
   \<and> settlements (finish (run examplePlatform exampleParams newSession
         [Message (DataString doneCompletedText)]))
       = [Reject (QWEN_TTS_INVALID_RESPONSE ''missing response.audio.delta'')]"
proof -
  let ?s = "run examplePlatform exampleParams newSession [Message (DataString doneCompletedText)]"
  from finish_without_audio_fails [where s = ?s and pf = examplePlatform and params = exampleParams
        and events = "[Message (DataString doneCompletedText)]", OF example_done_only]
  have "settled (finish ?s)"
    "settlements (finish ?s) = [Reject (QWEN_TTS_INVALID_RESPONSE ''missing response.audio.delta'')]"
    by blast+
  with example_done_only show ?thesis by blast
qed

text \<open>A text trims to the empty text exactly when it holds white space only.\<close>

lemma trim_empty_iff: "trim str = [] \<longleftrightarrow> (\<forall>c \<in> set str. isWhiteSpace c)"
proof -
  have k: "(\<forall>x \<in> set (dropWhile isWhiteSpace str). isWhiteSpace x) \<longleftrightarrow> dropWhile isWhiteSpace str = []"
  proof
    assume a: "\<forall>x \<in> set (dropWhile isWhiteSpace str). isWhiteSpace x"
    show "dropWhile isWhiteSpace str = []"
    proof (rule ccontr)
      assume n: "dropWhile isWhiteSpace str \<noteq> []"
      then have "\<not> isWhiteSpace (hd (dropWhile isWhiteSpace str))" by (rule hd_dropWhile)
      moreover have "hd (dropWhile isWhiteSpace str) \<in> set (dropWhile isWhiteSpace str)"
        using n by (rule hd_in_set)
      ultimately show False using a by blast
    qed
  next
    assume e: "dropWhile isWhiteSpace str = []"
    show "\<forall>x \<in> set (dropWhile isWhiteSpace str). isWhiteSpace x" unfolding e by simp
  qed
  have "trim str = [] \<longleftrightarrow> (\<forall>x \<in> set (dropWhile isWhiteSpace str). isWhiteSpace x)"
    by (simp add: trim_def dropWhile_eq_Nil_conv)
  also have "\<dots> \<longleftrightarrow> dropWhile isWhiteSpace str = []" by (rule k)
  also have "\<dots> \<longleftrightarrow> (\<forall>c \<in> set str. isWhiteSpace c)" by (simp only: dropWhile_eq_Nil_conv)
  finally show ?thesis .
qed

lemma collectChunks_other: "ItemOther \<in> set items \<Longrightarrow> collectChunks items = None"
  by (induction items rule: collectChunks.induct) auto

lemma onMessage_empty_text: "trim (decodeWsMessageToText data) = [] \<Longrightarrow> onMessage pf s data = s"
  by (simp add: onMessage_def)

lemma onMessage_invalid_cases:
  assumes "\<not> settled s" and "trim (decodeWsMessageToText data) \<noteq> []"
  shows "(JSON_parse pf (trim (decodeWsMessageToText data)) = None \<longrightarrow>
            onMessage pf s data = fail s (QWEN_TTS_INVALID_EVENT (trim (decodeWsMessageToText data))))
         \<and> (JSON_parse pf (trim (decodeWsMessageToText data)) = Some v \<and> \<not> isRecord (Some v) \<longrightarrow>
            onMessage pf s data = fail s (QWEN_TTS_INVALID_EVENT ''event payload is not object''))
         \<and> (JSON_parse pf (trim (decodeWsMessageToText data)) = Some v \<and> isRecord (Some v)
              \<and> readOptionalString (getProp (Some v) ''type'') = None \<longrightarrow>
            onMessage pf s data = fail s (QWEN_TTS_INVALID_EVENT ''missing type''))
         \<and> (JSON_parse pf (trim (decodeWsMessageToText data)) = None
              \<or> JSON_parse pf (trim (decodeWsMessageToText data)) = Some v
                 \<and> (\<not> isRecord (Some v) \<or> readOptionalString (getProp (Some v) ''type'') = None) \<longrightarrow>
            (\<exists>reason. settled (onMessage pf s data)
               \<and> effects (onMessage pf s data)
                   = effects s @ [ClearTimeout, WsClose 1011, Reject (QWEN_TTS_INVALID_EVENT reason)]))"
proof -
  let ?t = "trim (decodeWsMessageToText data)"
  have a: "onMessage pf s data = fail s (QWEN_TTS_INVALID_EVENT ?t)" if "JSON_parse pf ?t = None"
    using that assms(2) by (simp add: onMessage_def)
  have b: "onMessage pf s data = fail s (QWEN_TTS_INVALID_EVENT ''event payload is not object'')"
    if "JSON_parse pf ?t = Some v" "\<not> isRecord (Some v)"
    using that assms(2) by (simp add: onMessage_def)
  have c: "onMessage pf s data = fail s (QWEN_TTS_INVALID_EVENT ''missing type'')"
    if "JSON_parse pf ?t = Some v" "isRecord (Some v)" "readOptionalString (getProp (Some v) ''type'') = None"
    using that assms(2) by (simp add: onMessage_def)
  have d: "settled (fail s (QWEN_TTS_INVALID_EVENT reason))
      \<and> effects (fail s (QWEN_TTS_INVALID_EVENT reason))
          = effects s @ [ClearTimeout, WsClose 1011, Reject (QWEN_TTS_INVALID_EVENT reason)]" for reason
    using assms(1) by (simp add: effects_fail)
  show ?thesis
  proof (intro conjI impI)
    assume "JSON_parse pf ?t = None \<or> JSON_parse pf ?t = Some v
         \<and> (\<not> isRecord (Some v) \<or> readOptionalString (getProp (Some v) ''type'') = None)"
    then consider "JSON_parse pf ?t = None"
      | "JSON_parse pf ?t = Some v" "\<not> isRecord (Some v)"
      | "JSON_parse pf ?t = Some v" "isRecord (Some v)" "readOptionalString (getProp (Some v) ''type'') = None"
      by (cases "isRecord (Some v)") auto
    then show "\<exists>reason. settled (onMessage pf s data)
               \<and> effects (onMessage pf s data)
                   = effects s @ [ClearTimeout, WsClose 1011, Reject (QWEN_TTS_INVALID_EVENT reason)]"
    proof cases
      case 1
      with a d [of ?t] show ?thesis by auto
    next
      case 2
      with b d [of "''event payload is not object''"] show ?thesis by auto
    next
      case 3
      with c d [of "''missing type''"] show ?thesis by auto
    qed
  qed (use a b c in auto)
qed

text \<open>
  Claim C7, as amended. A message whose text is empty after trimming is ignored: the
  listener returns before parsing and the session stays as it is, settled or not. Such
  are a text of white space only (the empty text among them), a payload that is neither
  text nor bytes nor an array, and an array with an item that is no bytes, for which
  \<open>decodeWsMessageToText\<close> returns the empty text. For every other
  message on a session that is not settled: if \<open>JSON.parse\<close> raises on the text, or gives a
  value that is not an object, or gives an object without a \<open>type\<close> that reads as a
  non-empty string, the listener calls \<open>fail\<close> with a \<open>QWEN_TTS_INVALID_EVENT\<close> error
  (carrying the text, \<open>event payload is not object\<close>, or \<open>missing type\<close>), and the session
  is settled as failure with the socket closed with code 1011.
\<close>

theorem onMessage_invalid_event:
  "((\<forall>c \<in> set (decodeWsMessageToText data). isWhiteSpace c) \<longrightarrow> onMessage pf s data = s)
   \<and> (trim (decodeWsMessageToText data) = [] \<longrightarrow> onMessage pf s data = s)
   \<and> onMessage pf s DataOther = s
   \<and> (ItemOther \<in> set items \<longrightarrow> onMessage pf s (DataArray items) = s)
   \<and> (\<not> settled s \<and> trim (decodeWsMessageToText data) \<noteq> [] \<longrightarrow>
        (JSON_parse pf (trim (decodeWsMessageToText data)) = None \<longrightarrow>
            onMessage pf s data = fail s (QWEN_TTS_INVALID_EVENT (trim (decodeWsMessageToText data))))
         \<and> (JSON_parse pf (trim (decodeWsMessageToText data)) = Some v \<and> \<not> isRecord (Some v) \<longrightarrow>
            onMessage pf s data = fail s (QWEN_TTS_INVALID_EVENT ''event payload is not object''))
         \<and> (JSON_parse pf (trim (decodeWsMessageToText data)) = Some v \<and> isRecord (Some v)
              \<and> readOptionalString (getProp (Some v) ''type'') = None \<longrightarrow>
            onMessage pf s data = fail s (QWEN_TTS_INVALID_EVENT ''missing type''))
         \<and> (JSON_parse pf (trim (decodeWsMessageToText data)) = None
              \<or> JSON_parse pf (trim (decodeWsMessageToText data)) = Some v
                 \<and> (\<not> isRecord (Some v) \<or> readOptionalString (getProp (Some v) ''type'') = None) \<longrightarrow>
            (\<exists>reason. settled (onMessage pf s data)
               \<and> effects (onMessage pf s data)
                   = effects s @ [ClearTimeout, WsClose 1011, Reject (QWEN_TTS_INVALID_EVENT reason)])))"
proof (intro conjI)
  show "(\<forall>c \<in> set (decodeWsMessageToText data). isWhiteSpace c) \<longrightarrow> onMessage pf s data = s"
    by (simp add: onMessage_empty_text trim_empty_iff)
  show "trim (decodeWsMessageToText data) = [] \<longrightarrow> onMessage pf s data = s"
    by (simp add: onMessage_empty_text)
  show "onMessage pf s DataOther = s"
    by (simp add: onMessage_empty_text trim_def)
  show "ItemOther \<in> set items \<longrightarrow> onMessage pf s (DataArray items) = s"
    by (simp add: onMessage_empty_text trim_def collectChunks_other)
  show "\<not> settled s \<and> trim (decodeWsMessageToText data) \<noteq> [] \<longrightarrow>
        (JSON_parse pf (trim (decodeWsMessageToText data)) = None \<longrightarrow>
            onMessage pf s data = fail s (QWEN_TTS_INVALID_EVENT (trim (decodeWsMessageToText data))))
         \<and> (JSON_parse pf (trim (decodeWsMessageToText data)) = Some v \<and> \<not> isRecord (Some v) \<longrightarrow>
            onMessage pf s data = fail s (QWEN_TTS_INVALID_EVENT ''event payload is not object''))
         \<and> (JSON_parse pf (trim (decodeWsMessageToText data)) = Some v \<and> isRecord (Some v)
              \<and> readOptionalString (getProp (Some v) ''type'') = None \<longrightarrow>
            onMessage pf s data = fail s (QWEN_TTS_INVALID_EVENT ''missing type''))
         \<and> (JSON_parse pf (trim (decodeWsMessageToText data)) = None
              \<or> JSON_parse pf (trim (decodeWsMessageToText data)) = Some v
                 \<and> (\<not> isRecord (Some v) \<or> readOptionalString (getProp (Some v) ''type'') = None) \<longrightarrow>
            (\<exists>reason. settled (onMessage pf s data)
               \<and> effects (onMessage pf s data)
                   = effects s @ [ClearTimeout, WsClose 1011, Reject (QWEN_TTS_INVALID_EVENT reason)]))"
    using onMessage_invalid_cases [of s data pf v] by blast
qed

text \<open>
  Witness for C7: on a new session, a text of white space only, a payload that is no
  text, and an array with an item that is no buffer are ignored; a text that does not
  parse, a JSON array, and an object without \<open>type\<close> fail the session.
\<close>

theorem onMessage_invalid_event_witness:
  "isWhiteSpace (CHR 0x09)
   \<and> onMessage examplePlatform newSession (DataString [CHR 0x09]) = newSession
   \<and> trim (decodeWsMessageToText (DataString [CHR 0x20, CHR 0x0A])) = []
   \<and> onMessage examplePlatform newSession (DataString [CHR 0x20, CHR 0x0A]) = newSession
   \<and> trim (decodeWsMessageToText DataOther) = []
   \<and> onMessage examplePlatform newSession DataOther = newSession
   \<and> ItemOther \<in> set [ItemBuffer ''oops'', ItemOther]
   \<and> trim (decodeWsMessageToText (DataArray [ItemBuffer ''oops'', ItemOther])) = []
   \<and> onMessage examplePlatform newSession (DataArray [ItemBuffer ''oops'', ItemOther]) = newSession
   \<and> \<not> settled newSession
   \<and> trim (decodeWsMessageToText (DataString ''oops'')) \<noteq> []
   \<and> JSON_parse examplePlatform (trim (decodeWsMessageToText (DataString ''oops''))) = None
   \<and> onMessage examplePlatform newSession (DataString ''oops'')
       = fail newSession (QWEN_TTS_INVALID_EVENT ''oops'')
   \<and> trim (decodeWsMessageToText (DataString arrayText)) \<noteq> []
   \<and> JSON_parse examplePlatform (trim (decodeWsMessageToText (DataString arrayText))) = Some (JArray [JNumber 1])
   \<and> \<not> isRecord (Some (JArray [JNumber 1]))
   \<and> onMessage examplePlatform newSession (DataString arrayText)
       = fail newSession (QWEN_TTS_INVALID_EVENT ''event payload is not object'')
   \<and> trim (decodeWsMessageToText (DataString noTypeText)) \<noteq> []
   \<and> JSON_parse examplePlatform (trim (decodeWsMessageToText (DataString noTypeText)))
       = Some (JObject [(''event_id'', JString ''e1'')])
   \<and> readOptionalString (getProp (Some (JObject [(''event_id'', JString ''e1'')])) ''type'') = None
   \<and> onMessage examplePlatform newSession (DataString noTypeText)
       = fail newSession (QWEN_TTS_INVALID_EVENT ''missing type'')
   \<and> effects (fail newSession (QWEN_TTS_INVALID_EVENT ''missing type''))
       = [ClearTimeout, WsClose 1011, Reject (QWEN_TTS_INVALID_EVENT ''missing type'')]"
proof -
  have u: "\<not> settled newSession" by simp
  have w: "trim (decodeWsMessageToText (DataString [CHR 0x20, CHR 0x0A])) = []"
    "trim (decodeWsMessageToText DataOther) = []"
    "trim (decodeWsMessageToText (DataArray [ItemBuffer ''oops'', ItemOther])) = []"
    by (simp_all add: trim_def isWhiteSpace_def)
  note e0 = onMessage_invalid_event [where s = newSession and pf = examplePlatform
        and data = "DataString [CHR 0x09]", THEN conjunct1, rule_format]
  note e1 = onMessage_invalid_event [where s = newSession and pf = examplePlatform
        and data = "DataString [CHR 0x20, CHR 0x0A]", THEN conjunct2, THEN conjunct1, rule_format]
  note e2 = onMessage_invalid_event [where s = newSession and pf = examplePlatform,
        THEN conjunct2, THEN conjunct2, THEN conjunct1]
  note e3 = onMessage_invalid_event [where s = newSession and pf = examplePlatform
        and items = "[ItemBuffer ''oops'', ItemOther]",
        THEN conjunct2, THEN conjunct2, THEN conjunct2, THEN conjunct1, rule_format]
  have ws: "isWhiteSpace (CHR 0x09)" by (simp add: isWhiteSpace_def)
  have mem: "ItemOther \<in> set [ItemBuffer ''oops'', ItemOther]" by simp
  have i0: "onMessage examplePlatform newSession (DataString [CHR 0x09]) = newSession"
    by (rule e0) (simp add: ws)
  have i: "onMessage examplePlatform newSession (DataString [CHR 0x20, CHR 0x0A]) = newSession"
    "onMessage examplePlatform newSession DataOther = newSession"
    "onMessage examplePlatform newSession (DataArray [ItemBuffer ''oops'', ItemOther]) = newSession"
    by (rule e1, rule w(1), rule e2, rule e3, rule mem)
  have t: "trim (decodeWsMessageToText (DataString ''oops'')) = ''oops''"
    "trim (decodeWsMessageToText (DataString arrayText)) = arrayText"
    "trim (decodeWsMessageToText (DataString noTypeText)) = noTypeText"
    by (simp_all add: trim_examples)
  have ne: "''oops'' \<noteq> []" "arrayText \<noteq> []" "noTypeText \<noteq> []"
    by (simp_all add: nonempty_examples)
  have r: "\<not> isRecord (Some (JArray [JNumber 1]))" "isRecord (Some (JObject [(''event_id'', JString ''e1'')]))"
    "readOptionalString (getProp (Some (JObject [(''event_id'', JString ''e1'')])) ''type'') = None"
    by (simp_all add: isRecord_def getProp_def readOptionalString_def)
  have 1: "onMessage examplePlatform newSession (DataString ''oops'')
       = fail newSession (QWEN_TTS_INVALID_EVENT ''oops'')"
    using onMessage_invalid_event [where s = newSession and data = "DataString ''oops''"
        and pf = examplePlatform] u
    unfolding t using ne by (simp add: exampleParse_values)
  have 2: "onMessage examplePlatform newSession (DataString arrayText)
       = fail newSession (QWEN_TTS_INVALID_EVENT ''event payload is not object'')"
    using onMessage_invalid_event [where s = newSession and data = "DataString arrayText"
        and pf = examplePlatform and v = "JArray [JNumber 1]"] u r
    unfolding t using ne by (simp add: exampleParse_values)
  have 3: "onMessage examplePlatform newSession (DataString noTypeText)
       = fail newSession (QWEN_TTS_INVALID_EVENT ''missing type'')"
    using onMessage_invalid_event [where s = newSession and data = "DataString noTypeText"
        and pf = examplePlatform and v = "JObject [(''event_id'', JString ''e1'')]"] u r
    unfolding t using ne by (simp add: exampleParse_values)
  have 4: "effects (fail newSession (QWEN_TTS_INVALID_EVENT ''missing type''))
       = [ClearTimeout, WsClose 1011, Reject (QWEN_TTS_INVALID_EVENT ''missing type'')]"
    by (simp add: effects_fail)
  show ?thesis
    unfolding t w using u ne r ws i0 i 1 2 3 4 by (simp add: exampleParse_values)
qed

text \<open>
  Counterexample to C7 as stated: the empty text is not valid JSON, and the listener
  returns on it before parsing; the session stays as it was, not settled.
\<close>

theorem empty_message_ignored_counterexample:
  "JSON_parse examplePlatform (trim (decodeWsMessageToText (DataString []))) = None
   \<and> onMessage examplePlatform newSession (DataString []) = newSession
   \<and> \<not> settled (onMessage examplePlatform newSession (DataString []))
   \<and> effects (onMessage examplePlatform newSession (DataString [])) = []"
  by (simp add: onMessage_def trim_examples exampleParse_values)

text \<open>
  Claim C9, as amended. On a session that is not settled, a \<open>response.done\<close> event whose
  status reads as absent (no \<open>response\<close> object, or a status that is missing, not a
  string, or empty after trimming) or as completed never takes the status failure: the
  listener records \<open>hasResponseDone\<close> and either leaves the session unsettled with no
  call made (when \<open>session.finished\<close> has not been recorded) or takes \<open>finish\<close>. A
  status that reads as a non-empty string other than completed makes the listener call
  \<open>fail\<close> with \<open>QWEN_TTS_FAILED\<close> and that status. After a \<open>response.done\<close> of the first
  kind, on a session that holds audio, a \<open>session.finished\<close> event settles the session
  as success.
\<close>

theorem response_done_status_handling:
  assumes "\<not> settled s" and "inbound pf data obj ''response.done''"
  shows "(responseStatus obj = None \<or> responseStatus obj = Some ''completed'' \<longrightarrow>
            onMessage pf s data
              = (if hasSessionFinished s then finish (s\<lparr>hasResponseDone := True\<rparr>)
                 else s\<lparr>hasResponseDone := True\<rparr>)
            \<and> hasResponseDone (onMessage pf s data)
            \<and> (\<not> hasSessionFinished s \<longrightarrow>
                 \<not> settled (onMessage pf s data) \<and> effects (onMessage pf s data) = effects s))
         \<and> (responseStatus obj = Some st \<and> st \<noteq> ''completed'' \<longrightarrow>
            onMessage pf s data = fail (s\<lparr>hasResponseDone := True\<rparr>) (QWEN_TTS_FAILED st)
            \<and> settled (onMessage pf s data)
            \<and> effects (onMessage pf s data)
                = effects s @ [ClearTimeout, WsClose 1011, Reject (QWEN_TTS_FAILED st)])
         \<and> ((responseStatus obj = None \<or> responseStatus obj = Some ''completed'')
              \<and> audioChunks s \<noteq> []
              \<and> normalizeQwenAudioToWav (concat (audioChunks s)) 24000 = Inr (audioData r)
              \<and> getWavDurationFromBuffer (audioData r) = Inr (audioDuration r)
              \<and> inbound pf d2 o2 ''session.finished'' \<longrightarrow>
            settlements (onMessage pf (onMessage pf s data) d2) = settlements s @ [Resolve r]
            \<and> closes (onMessage pf (onMessage pf s data) d2) = closes s @ [WsClose 1000])"
proof -
  let ?s1 = "s\<lparr>hasResponseDone := True\<rparr>"
  have m: "onMessage pf s data = onResponseDone s (Some (JObject obj))"
    using assms(2) by (rule onMessage_response_done)
  have a: "onMessage pf s data = (if hasSessionFinished s then finish ?s1 else ?s1)"
    if "responseStatus obj = None \<or> responseStatus obj = Some ''completed''"
    using that m by (auto simp: onResponseDone_status)
  have b: "onMessage pf s data = fail ?s1 (QWEN_TTS_FAILED st)"
    if "responseStatus obj = Some st" "st \<noteq> ''completed''"
    using that m by (simp add: onResponseDone_status)
  have bf: "settled (fail ?s1 (QWEN_TTS_FAILED st))"
    "effects (fail ?s1 (QWEN_TTS_FAILED st))
       = effects s @ [ClearTimeout, WsClose 1011, Reject (QWEN_TTS_FAILED st)]"
    using assms(1) effects_fail [of ?s1 "QWEN_TTS_FAILED st"] by simp_all
  have c: "settlements (onMessage pf (onMessage pf s data) d2) = settlements s @ [Resolve r]
            \<and> closes (onMessage pf (onMessage pf s data) d2) = closes s @ [WsClose 1000]"
    if "responseStatus obj = None \<or> responseStatus obj = Some ''completed''" "audioChunks s \<noteq> []"
      "normalizeQwenAudioToWav (concat (audioChunks s)) 24000 = Inr (audioData r)"
      "getWavDurationFromBuffer (audioData r) = Inr (audioDuration r)"
      "inbound pf d2 o2 ''session.finished''"
    using done_then_finished [OF assms(1) that(2,3,4) assms(2) that(1,5)] by simp
  show ?thesis
  proof (intro conjI impI)
    assume h: "responseStatus obj = None \<or> responseStatus obj = Some ''completed''"
    show "onMessage pf s data = (if hasSessionFinished s then finish ?s1 else ?s1)"
      using a [OF h] .
    show "hasResponseDone (onMessage pf s data)"
      using a [OF h] by simp
    show "\<not> settled (onMessage pf s data)" if "\<not> hasSessionFinished s"
      using a [OF h] that assms(1) by simp
    show "effects (onMessage pf s data) = effects s" if "\<not> hasSessionFinished s"
      using a [OF h] that by simp
  next
    assume h: "responseStatus obj = Some st \<and> st \<noteq> ''completed''"
    then have e: "onMessage pf s data = fail ?s1 (QWEN_TTS_FAILED st)" using b by simp
    show "onMessage pf s data = fail ?s1 (QWEN_TTS_FAILED st)" by (rule e)
    show "settled (onMessage pf s data)" unfolding e by (rule bf)
    show "effects (onMessage pf s data) = effects s @ [ClearTimeout, WsClose 1011, Reject (QWEN_TTS_FAILED st)]"
      unfolding e by (rule bf)
  next
    assume h: "(responseStatus obj = None \<or> responseStatus obj = Some ''completed'')
              \<and> audioChunks s \<noteq> []
              \<and> normalizeQwenAudioToWav (concat (audioChunks s)) 24000 = Inr (audioData r)
              \<and> getWavDurationFromBuffer (audioData r) = Inr (audioDuration r)
              \<and> inbound pf d2 o2 ''session.finished''"
    then show "settlements (onMessage pf (onMessage pf s data) d2) = settlements s @ [Resolve r]"
      and "closes (onMessage pf (onMessage pf s data) d2) = closes s @ [WsClose 1000]"
      using c by simp_all
  qed
qed

text \<open>
  Witness for C9: a \<open>response.done\<close> without \<open>response\<close> after one audio delta, followed
  by \<open>session.finished\<close>; and a \<open>response.done\<close> with the status failed.
\<close>

theorem response_done_status_handling_witness:
  "\<not> settled (run examplePlatform exampleParams newSession [Open SendsSucceed, Message (DataString deltaText)])
   \<and> inbound examplePlatform (DataString doneBareText) [(''type'', JString ''response.done'')] ''response.done''
   \<and> responseStatus [(''type'', JString ''response.done'')] = None
   \<and> hasResponseDone (onMessage examplePlatform
         (run examplePlatform exampleParams newSession [Open SendsSucceed, Message (DataString deltaText)])
         (DataString doneBareText))
   \<and> \<not> settled (onMessage examplePlatform
         (run examplePlatform exampleParams newSession [Open SendsSucceed, Message (DataString deltaText)])
         (DataString doneBareText))
   \<and> settlements (onMessage examplePlatform (onMessage examplePlatform
         (run examplePlatform exampleParams newSession [Open SendsSucceed, Message (DataString deltaText)])
         (DataString doneBareText)) (DataString finishedText))
       = [Resolve \<lparr>audioData = wavHeader 4 24000 @ [1, 2, 3, 4], audioDuration = 0\<rparr>]
   \<and> responseStatus [(''type'', JString ''response.done''), (''response'', JObject [(''status'', JString ''failed'')])]
       = Some ''failed''
   \<and> ''failed'' \<noteq> ''completed''
   \<and> effects (onMessage examplePlatform newSession (DataString doneFailedText))
       = [ClearTimeout, WsClose 1011, Reject (QWEN_TTS_FAILED ''failed'')]"
proof -
  let ?s = "run examplePlatform exampleParams newSession [Open SendsSucceed, Message (DataString deltaText)]"
  let ?r = "\<lparr>audioData = wavHeader 4 24000 @ [1, 2, 3, 4], audioDuration = 0\<rparr>"
  have clean: "settlements ?s = []" "\<not> hasSessionFinished ?s"
    using reachable_unsettled [OF example_pre(1)]
    by (simp_all add: run_Cons onOpen_def onMessage_delta_example)
  have au: "audioChunks ?s \<noteq> []"
    "normalizeQwenAudioToWav (concat (audioChunks ?s)) 24000 = Inr (audioData ?r)"
    "getWavDurationFromBuffer (audioData ?r) = Inr (audioDuration ?r)"
    unfolding example_pre(2) by (simp_all add: example_audio)
  note first = response_done_status_handling [where s = ?s and pf = examplePlatform
      and data = "DataString doneBareText" and obj = "[(''type'', JString ''response.done'')]"
      and r = ?r and ?d2.0 = "DataString finishedText" and ?o2.0 = "[(''type'', JString ''session.finished'')]",
      OF example_pre(1) inbound_examples(3)]
  have 1: "hasResponseDone (onMessage examplePlatform ?s (DataString doneBareText))"
    "\<not> settled (onMessage examplePlatform ?s (DataString doneBareText))"
    using first responseStatus_examples(3) clean(2) by blast+
  have "settlements (onMessage examplePlatform (onMessage examplePlatform ?s (DataString doneBareText))
        (DataString finishedText)) = settlements ?s @ [Resolve ?r]"
    using first responseStatus_examples(3) au inbound_examples(4) by blast
  then have fin: "settlements (onMessage examplePlatform (onMessage examplePlatform ?s (DataString doneBareText))
        (DataString finishedText)) = [Resolve ?r]"
    using clean(1) by simp
  have ns: "\<not> settled newSession" by simp
  have 3: "''failed'' \<noteq> ''completed''" by simp
  note second = response_done_status_handling [where s = newSession and pf = examplePlatform
      and data = "DataString doneFailedText" and st = "''failed''"
      and obj = "[(''type'', JString ''response.done''), (''response'', JObject [(''status'', JString ''failed'')])]",
      OF ns inbound_examples(2)]
  have "effects (onMessage examplePlatform newSession (DataString doneFailedText))
       = effects newSession @ [ClearTimeout, WsClose 1011, Reject (QWEN_TTS_FAILED ''failed'')]"
    using second responseStatus_examples(2) 3 by blast
  then have 2: "effects (onMessage examplePlatform newSession (DataString doneFailedText))
       = [ClearTimeout, WsClose 1011, Reject (QWEN_TTS_FAILED ''failed'')]"
    by simp
  show ?thesis
    using example_pre(1) inbound_examples(3) responseStatus_examples(2,3) 1 fin 2 3 by blast
qed

text \<open>
  Counterexample to C9 as stated: after \<open>session.finished\<close> on a session without audio
  (the promise is still pending), a \<open>response.done\<close> event without a status settles the
  session as failure.
\<close>

theorem response_done_without_status_counterexample:
  "responseStatus [(''type'', JString ''response.done'')] = None
   \<and> generateVoiceWithQwenRealtimeTTS examplePlatform exampleParams [Message (DataString finishedText)] = None
   \<and> generateVoiceWithQwenRealtimeTTS examplePlatform exampleParams
       [Message (DataString finishedText), Message (DataString doneBareText)]
     = Some (Inl (QWEN_TTS_INVALID_RESPONSE ''missing response.audio.delta''))"
  by (simp only: generateVoiceWithQwenRealtimeTTS_def settlements_def example_finished_done_effects
      responseStatus_examples) simp

section \<open>Claims about the request/response transport\<close>

lemma withDuration_returns:
  "\<exists>d. withDuration audio = Inr \<lparr>audioData = audio, audioDuration = d\<rparr> \<and> getWavDurationFromBuffer audio = Inr d"
  using getWavDurationFromBuffer_returns [of audio] by (auto simp: withDuration_def)

text \<open>
  Claim C3, as amended. For a model that is not a realtime model, when the endpoint
  answers with success and inline base64 audio that decodes to the bytes \<open>raw\<close>, the
  result holds exactly \<open>raw\<close> (its \<open>N\<close> bytes, not wrapped) and the duration that
  \<open>getWavDurationFromBuffer\<close> computes on \<open>raw\<close>, which is the fallback
  \<open>Math.round(N * 8 / 128)\<close> when \<open>raw\<close> does not begin with RIFF.
\<close>

theorem http_inline_audio_returned_unwrapped:
  assumes "\<not> isQwenRealtimeModel (modelId params)" and "ok response"
    and "readQwenAudioBase64 (if responseText response \<noteq> [] then JSON_parse pf (responseText response) else None)
           = Some audioBase64"
    and "fromBase64 pf audioBase64 = Inr raw"
  shows "\<exists>d. generateVoiceWithQwenTTS pf params events response download
               = Some (Inr \<lparr>audioData = raw, audioDuration = d\<rparr>)
           \<and> getWavDurationFromBuffer raw = Inr d
           \<and> (toStringAscii (slice raw 0 4) \<noteq> ''RIFF'' \<longrightarrow> d = Math_round (real (length raw * 8) / 128))"
proof -
  from withDuration_returns [of raw] obtain d where
    d: "withDuration raw = Inr \<lparr>audioData = raw, audioDuration = d\<rparr>" "getWavDurationFromBuffer raw = Inr d"
    by blast
  have "generateVoiceWithQwenTTSHttp pf response download = Inr \<lparr>audioData = raw, audioDuration = d\<rparr>"
    using assms(2,3,4) d(1) by (simp add: generateVoiceWithQwenTTSHttp_def Let_def)
  then have g: "generateVoiceWithQwenTTS pf params events response download
               = Some (Inr \<lparr>audioData = raw, audioDuration = d\<rparr>)"
    using assms(1) by (simp add: generateVoiceWithQwenTTS_def)
  have "d = Math_round (real (length raw * 8) / 128)" if "toStringAscii (slice raw 0 4) \<noteq> ''RIFF''"
    using that d(2) by (simp add: getWavDurationFromBuffer_def wavDurationTry_def fallbackDuration_def)
  with g d(2) show ?thesis by blast
qed

text \<open>
  Witness for C3: the model \<open>voice-tts-batch-v1\<close> and a response whose inline audio
  decodes to four bytes.
\<close>

theorem http_inline_audio_returned_unwrapped_witness:
  "\<not> isQwenRealtimeModel (modelId batchParams) \<and> ok inlineResponse
   \<and> readQwenAudioBase64 (if responseText inlineResponse \<noteq> []
        then JSON_parse examplePlatform (responseText inlineResponse) else None) = Some ''AQIDBA==''
   \<and> fromBase64 examplePlatform ''AQIDBA=='' = Inr [1, 2, 3, 4]
   \<and> generateVoiceWithQwenTTS examplePlatform batchParams [] inlineResponse noDownload
       = Some (Inr \<lparr>audioData = [1, 2, 3, 4], audioDuration = 0\<rparr>)"
proof -
  from http_inline_audio_returned_unwrapped [where pf = examplePlatform and params = batchParams
      and response = inlineResponse and events = "[]" and download = noDownload, OF example_http]
  obtain d where "generateVoiceWithQwenTTS examplePlatform batchParams [] inlineResponse noDownload
               = Some (Inr \<lparr>audioData = [1, 2, 3, 4], audioDuration = d\<rparr>)"
    "getWavDurationFromBuffer [1, 2, 3, 4] = Inr d" by blast
  with example_raw_duration example_http show ?thesis by simp
qed

text \<open>
  Counterexample to C3 as stated: four raw bytes that are not container-formatted come
  back as the same four bytes, not as a container of \<open>44 + 4\<close> bytes.
\<close>

theorem http_inline_audio_not_wrapped_counterexample:
  "\<not> isQwenRealtimeModel (modelId batchParams)
   \<and> fromBase64 examplePlatform ''AQIDBA=='' = Inr [1, 2, 3, 4]
   \<and> \<not> isWavBuffer [1, 2, 3, 4]
   \<and> generateVoiceWithQwenTTS examplePlatform batchParams [] inlineResponse noDownload
       = Some (Inr \<lparr>audioData = [1, 2, 3, 4], audioDuration = 0\<rparr>)
   \<and> length [1, 2, 3, 4 :: byte] \<noteq> 44 + 4"
proof -
  have "withDuration [1, 2, 3, 4] = Inr \<lparr>audioData = [1, 2, 3, 4], audioDuration = 0\<rparr>"
    by (simp add: withDuration_def example_raw_duration)
  then have "generateVoiceWithQwenTTSHttp examplePlatform inlineResponse noDownload
       = Inr \<lparr>audioData = [1, 2, 3, 4], audioDuration = 0\<rparr>"
    using example_http(2,3,4) by (simp add: generateVoiceWithQwenTTSHttp_def Let_def)
  then have "generateVoiceWithQwenTTS examplePlatform batchParams [] inlineResponse noDownload
       = Some (Inr \<lparr>audioData = [1, 2, 3, 4], audioDuration = 0\<rparr>)"
    using example_http(1) by (simp add: generateVoiceWithQwenTTS_def)
  moreover have "\<not> isWavBuffer [1, 2, 3, 4]" by (simp add: isWavBuffer_def)
  ultimately show ?thesis using example_http(1,4) by simp
qed

section \<open>Claims about the task queues\<close>

lemma has_TYPES:
  "has IMAGE_TYPES t = (t \<in> {IMAGE_PANEL, IMAGE_CHARACTER, IMAGE_LOCATION, PANEL_VARIANT,
      MODIFY_ASSET_IMAGE, REGENERATE_GROUP, ASSET_HUB_IMAGE, ASSET_HUB_MODIFY})"
  "has VIDEO_TYPES t = (t \<in> {VIDEO_PANEL, LIP_SYNC})"
  "has VOICE_TYPES t = (t \<in> {VOICE_LINE, VOICE_DESIGN, ASSET_HUB_VOICE_DESIGN})"
  by (simp_all add: has_def IMAGE_TYPES_def VIDEO_TYPES_def VOICE_TYPES_def)

text \<open>
  Claim C8. \<open>getQueueTypeByTaskType\<close> is a function on the task kinds: a kind in
  \<open>IMAGE_TYPES\<close> maps to the image queue, a kind in \<open>VIDEO_TYPES\<close> to the video queue, a
  kind in \<open>VOICE_TYPES\<close> to the voice queue, and a kind in none of the three to the text
  queue; every kind has exactly one queue.
\<close>

theorem getQueueTypeByTaskType_total:
  "(has IMAGE_TYPES t \<longrightarrow> getQueueTypeByTaskType t = Image)
   \<and> (has VIDEO_TYPES t \<longrightarrow> getQueueTypeByTaskType t = Video)
   \<and> (has VOICE_TYPES t \<longrightarrow> getQueueTypeByTaskType t = Voice)
   \<and> (\<not> has IMAGE_TYPES t \<and> \<not> has VIDEO_TYPES t \<and> \<not> has VOICE_TYPES t \<longrightarrow>
        getQueueTypeByTaskType t = Text)
   \<and> (\<exists>!q. getQueueTypeByTaskType t = q)"
proof (intro conjI impI)
  show "getQueueTypeByTaskType t = Image" if "has IMAGE_TYPES t"
    using that by (simp add: getQueueTypeByTaskType_def)
  show "getQueueTypeByTaskType t = Video" if "has VIDEO_TYPES t"
    using that by (auto simp: getQueueTypeByTaskType_def has_TYPES)
  show "getQueueTypeByTaskType t = Voice" if "has VOICE_TYPES t"
    using that by (auto simp: getQueueTypeByTaskType_def has_TYPES)
  show "getQueueTypeByTaskType t = Text"
    if "\<not> has IMAGE_TYPES t \<and> \<not> has VIDEO_TYPES t \<and> \<not> has VOICE_TYPES t"
    using that by (simp add: getQueueTypeByTaskType_def)
  show "\<exists>!q. getQueueTypeByTaskType t = q" by simp
qed

text \<open>
  Witness for C8: one kind of each set, and a kind that is in none.
\<close>

theorem getQueueTypeByTaskType_total_witness:
  "has IMAGE_TYPES PANEL_VARIANT \<and> getQueueTypeByTaskType PANEL_VARIANT = Image
   \<and> has VIDEO_TYPES LIP_SYNC \<and> getQueueTypeByTaskType LIP_SYNC = Video
   \<and> has VOICE_TYPES VOICE_LINE \<and> getQueueTypeByTaskType VOICE_LINE = Voice
   \<and> \<not> has IMAGE_TYPES (OTHER_TASK ''analyze_novel'') \<and> \<not> has VIDEO_TYPES (OTHER_TASK ''analyze_novel'')
   \<and> \<not> has VOICE_TYPES (OTHER_TASK ''analyze_novel'')
   \<and> getQueueTypeByTaskType (OTHER_TASK ''analyze_novel'') = Text"
proof -
  have m: "has IMAGE_TYPES PANEL_VARIANT" "has VIDEO_TYPES LIP_SYNC" "has VOICE_TYPES VOICE_LINE"
    "\<not> has IMAGE_TYPES (OTHER_TASK ''analyze_novel'')" "\<not> has VIDEO_TYPES (OTHER_TASK ''analyze_novel'')"
    "\<not> has VOICE_TYPES (OTHER_TASK ''analyze_novel'')"
    by (simp_all add: has_TYPES)
  have 1: "getQueueTypeByTaskType PANEL_VARIANT = Image"
    using getQueueTypeByTaskType_total [of PANEL_VARIANT] m(1) by simp
  have 2: "getQueueTypeByTaskType LIP_SYNC = Video"
    using getQueueTypeByTaskType_total [of LIP_SYNC] m(2) by simp
  have 3: "getQueueTypeByTaskType VOICE_LINE = Voice"
    using getQueueTypeByTaskType_total [of VOICE_LINE] m(3) by simp
  have 4: "getQueueTypeByTaskType (OTHER_TASK ''analyze_novel'') = Text"
    using getQueueTypeByTaskType_total [of "OTHER_TASK ''analyze_novel''"] m(4,5,6) by simp
  show ?thesis using m 1 2 3 4 by simp
qed

lemma removeLoop_none:
  "\<forall>q \<in> set queues. qs q taskId = None \<Longrightarrow>
   removeLoop queues qs taskId calls = (Inr False, qs, calls @ map (\<lambda>q. GetJob q taskId) queues)"
  by (induction queues arbitrary: calls) simp_all

lemma removeLoop_first:
  assumes "\<forall>p \<in> set before. qs p taskId = None" and "qs q taskId = Some j"
  shows "removeLoop (before @ q # rest) qs taskId calls =
           (if locked j
            then (Inl JobLocked, qs,
                  calls @ map (\<lambda>p. GetJob p taskId) before @ [GetJob q taskId, JobRemove q taskId])
            else (Inr True, qs(q := (qs q)(taskId := None)),
                  calls @ map (\<lambda>p. GetJob p taskId) before @ [GetJob q taskId, JobRemove q taskId]))"
  using assms by (induction before arbitrary: calls) simp_all

text \<open>
  Claim C10. \<open>removeTaskJob\<close> asks the queues for the job in the order image, video,
  voice, text. If no queue holds a job with the id, it has asked all four, changes
  nothing and returns false. If \<open>q\<close> is the first queue that holds one, it has asked the
  queues up to \<open>q\<close> and no queue after it, removes that one job from \<open>q\<close> and returns
  true; every other job, also one with the same id in a later queue, stays. When the
  removal of that job is rejected (the job is locked), nothing is removed and the
  rejection is what \<open>removeTaskJob\<close> ends with.
\<close>

theorem removeTaskJob_first_match:
  "ALL_QUEUES = [Image, Video, Voice, Text]
   \<and> ((\<forall>q \<in> set ALL_QUEUES. qs q taskId = None) \<longrightarrow>
        removeTaskJob qs taskId = (Inr False, qs, map (\<lambda>q. GetJob q taskId) ALL_QUEUES))
   \<and> (ALL_QUEUES = before @ q # rest \<and> (\<forall>p \<in> set before. qs p taskId = None)
        \<and> qs q taskId = Some j \<and> \<not> locked j \<longrightarrow>
        removeTaskJob qs taskId =
          (Inr True, qs(q := (qs q)(taskId := None)),
           map (\<lambda>p. GetJob p taskId) before @ [GetJob q taskId, JobRemove q taskId]))
   \<and> (ALL_QUEUES = before @ q # rest \<and> (\<forall>p \<in> set before. qs p taskId = None)
        \<and> qs q taskId = Some j \<and> locked j \<longrightarrow>
        removeTaskJob qs taskId =
          (Inl JobLocked, qs,
           map (\<lambda>p. GetJob p taskId) before @ [GetJob q taskId, JobRemove q taskId]))"
proof (intro conjI impI)
  show "ALL_QUEUES = [Image, Video, Voice, Text]" by (simp add: ALL_QUEUES_def)
next
  assume "\<forall>q \<in> set ALL_QUEUES. qs q taskId = None"
  then show "removeTaskJob qs taskId = (Inr False, qs, map (\<lambda>q. GetJob q taskId) ALL_QUEUES)"
    unfolding removeTaskJob_def by (simp add: removeLoop_none)
next
  assume h: "ALL_QUEUES = before @ q # rest \<and> (\<forall>p \<in> set before. qs p taskId = None)
        \<and> qs q taskId = Some j \<and> \<not> locked j"
  then have "removeTaskJob qs taskId = removeLoop (before @ q # rest) qs taskId []"
    by (simp add: removeTaskJob_def)
  with h removeLoop_first [of before qs taskId q j rest "[]"]
  show "removeTaskJob qs taskId =
          (Inr True, qs(q := (qs q)(taskId := None)),
           map (\<lambda>p. GetJob p taskId) before @ [GetJob q taskId, JobRemove q taskId])"
    by simp
next
  assume h: "ALL_QUEUES = before @ q # rest \<and> (\<forall>p \<in> set before. qs p taskId = None)
        \<and> qs q taskId = Some j \<and> locked j"
  then have "removeTaskJob qs taskId = removeLoop (before @ q # rest) qs taskId []"
    by (simp add: removeTaskJob_def)
  with h removeLoop_first [of before qs taskId q j rest "[]"]
  show "removeTaskJob qs taskId =
          (Inl JobLocked, qs,
           map (\<lambda>p. GetJob p taskId) before @ [GetJob q taskId, JobRemove q taskId])"
    by simp
qed

text \<open>
  Witness for C10: the job \<open>t1\<close> is in the video and the voice queue, and is removed
  from the video queue only; no queue holds \<open>t2\<close>; the job \<open>t3\<close> in the text queue is
  locked.
\<close>

theorem removeTaskJob_first_match_witness:
  "ALL_QUEUES = [Image] @ Video # [Voice, Text]
   \<and> exampleQueues Image ''t1'' = None
   \<and> exampleQueues Video ''t1'' = Some \<lparr>jobData = 1, locked = False\<rparr>
   \<and> removeTaskJob exampleQueues ''t1''
       = (Inr True, exampleQueues(Video := (exampleQueues Video)(''t1'' := None)),
          [GetJob Image ''t1'', GetJob Video ''t1'', JobRemove Video ''t1''])
   \<and> (exampleQueues(Video := (exampleQueues Video)(''t1'' := None))) Voice ''t1''
       = Some \<lparr>jobData = 2, locked = False\<rparr>
   \<and> exampleQueues Image ''t2'' = None \<and> exampleQueues Video ''t2'' = None
   \<and> exampleQueues Voice ''t2'' = None \<and> exampleQueues Text ''t2'' = None
   \<and> removeTaskJob exampleQueues ''t2''
       = (Inr False, exampleQueues,
          [GetJob Image ''t2'', GetJob Video ''t2'', GetJob Voice ''t2'', GetJob Text ''t2''])
   \<and> ALL_QUEUES = [Image, Video, Voice] @ Text # []
   \<and> exampleQueues Text ''t3'' = Some \<lparr>jobData = 3, locked = True\<rparr>
   \<and> removeTaskJob exampleQueues ''t3''
       = (Inl JobLocked, exampleQueues,
          [GetJob Image ''t3'', GetJob Video ''t3'', GetJob Voice ''t3'', GetJob Text ''t3'',
           JobRemove Text ''t3''])"
proof -
  have a: "ALL_QUEUES = [Image] @ Video # [Voice, Text]" "ALL_QUEUES = [Image, Video, Voice] @ Text # []"
    by (simp_all add: ALL_QUEUES_def)
  have e: "exampleQueues Image ''t1'' = None"
    "exampleQueues Video ''t1'' = Some \<lparr>jobData = 1, locked = False\<rparr>"
    "exampleQueues Voice ''t1'' = Some \<lparr>jobData = 2, locked = False\<rparr>"
    "exampleQueues Text ''t3'' = Some \<lparr>jobData = 3, locked = True\<rparr>"
    "exampleQueues Image ''t3'' = None" "exampleQueues Video ''t3'' = None"
    "exampleQueues Voice ''t3'' = None"
    "\<forall>q \<in> set ALL_QUEUES. exampleQueues q ''t2'' = None"
    by (simp_all add: exampleQueues_def ALL_QUEUES_def)
  have 1: "removeTaskJob exampleQueues ''t1''
       = (Inr True, exampleQueues(Video := (exampleQueues Video)(''t1'' := None)),
          [GetJob Image ''t1'', GetJob Video ''t1'', JobRemove Video ''t1''])"
    using removeTaskJob_first_match [where qs = exampleQueues and taskId = "''t1''" and before = "[Image]"
        and q = Video and rest = "[Voice, Text]" and j = "\<lparr>jobData = 1, locked = False\<rparr>"] a e
    by simp
  have 2: "removeTaskJob exampleQueues ''t2''
       = (Inr False, exampleQueues,
          [GetJob Image ''t2'', GetJob Video ''t2'', GetJob Voice ''t2'', GetJob Text ''t2''])"
    using removeTaskJob_first_match [where qs = exampleQueues and taskId = "''t2''"] e(8)
    by (simp add: ALL_QUEUES_def)
  have 3: "removeTaskJob exampleQueues ''t3''
       = (Inl JobLocked, exampleQueues,
          [GetJob Image ''t3'', GetJob Video ''t3'', GetJob Voice ''t3'', GetJob Text ''t3'',
           JobRemove Text ''t3''])"
    using removeTaskJob_first_match [where qs = exampleQueues and taskId = "''t3''"
        and before = "[Image, Video, Voice]" and q = Text and rest = "[]"
        and j = "\<lparr>jobData = 3, locked = True\<rparr>"] a e
    by simp
  have 4: "(exampleQueues(Video := (exampleQueues Video)(''t1'' := None))) Voice ''t1''
       = Some \<lparr>jobData = 2, locked = False\<rparr>"
    using e(3) by simp
  have 5: "exampleQueues Image ''t2'' = None" "exampleQueues Video ''t2'' = None"
    "exampleQueues Voice ''t2'' = None" "exampleQueues Text ''t2'' = None"
    by (simp_all add: exampleQueues_def)
  show ?thesis using a e(1-7) 1 2 3 4 5 by blast
qed

end
